theory Spec2Isabelle
  imports Main "HOL-Library.Sublist" "HOL-Library.Monad_Syntax"
begin

section \<open>Strings of the host language\<close>

text \<open>
  A string is a list of code units. The model covers the code units below 256: the
  white space that \<open>String.prototype.trim\<close> strips there is TAB, LF, VT, FF, CR, SPACE and
  NBSP, and \<open>toLowerCase\<close> maps A..Z and the capital letters 0xC0..0xDE (0xD7, the
  multiplication sign, apart) 32 places up and leaves every other code unit alone.
\<close>

definition isWhiteSpace :: "char \<Rightarrow> bool" where
  "isWhiteSpace c =
     (c \<in> set [CHR 0x09, CHR 0x0A, CHR 0x0B, CHR 0x0C, CHR 0x0D, CHR 0x20, CHR 0xA0])"

definition trimStart :: "string \<Rightarrow> string" where
  "trimStart s = dropWhile isWhiteSpace s"

definition trimEnd :: "string \<Rightarrow> string" where
  "trimEnd s = rev (dropWhile isWhiteSpace (rev s))"

definition trim :: "string \<Rightarrow> string" where
  "trim s = trimEnd (trimStart s)"

definition isUpper :: "nat \<Rightarrow> bool" where
  "isUpper n = ((65 \<le> n \<and> n \<le> 90) \<or> (192 \<le> n \<and> n \<le> 222 \<and> n \<noteq> 215))"

definition lowerChar :: "char \<Rightarrow> char" where
  "lowerChar c = (if isUpper (of_char c) then char_of (of_char c + (32::nat)) else c)"

definition toLowerCase :: "string \<Rightarrow> string" where
  "toLowerCase s = map lowerChar s"

text \<open>\<open>startsWith s t\<close>: \<open>t\<close> is read off the front of \<open>s\<close>.\<close>

fun startsWith :: "string \<Rightarrow> string \<Rightarrow> bool" where
  "startsWith s [] = True"
| "startsWith [] (y # ys) = False"
| "startsWith (x # xs) (y # ys) = (x = y \<and> startsWith xs ys)"

text \<open>\<open>String.prototype.includes\<close>: \<open>t\<close> occurs in \<open>s\<close> at some position.\<close>

fun includes_str :: "string \<Rightarrow> string \<Rightarrow> bool" where
  "includes_str [] t = (t = [])"
| "includes_str (x # xs) t = (startsWith (x # xs) t \<or> includes_str xs t)"

text \<open>\<open>String.prototype.substr(start, length)\<close> for non-negative arguments.\<close>

definition substr :: "nat \<Rightarrow> nat \<Rightarrow> string \<Rightarrow> string" where
  "substr start len s = take len (drop start s)"

text \<open>The digits 0..9 and a..z.\<close>

definition digit36 :: "int \<Rightarrow> char" where
  "digit36 d = (if d < 10 then char_of (48 + d) else char_of (87 + d))"

function digits36 :: "int \<Rightarrow> string" where
  "digits36 n = (if n < 36 then [digit36 n] else digits36 (n div 36) @ [digit36 (n mod 36)])"
  by pat_completeness auto
termination
  by (relation "measure nat") auto

declare digits36.simps [simp del]

text \<open>\<open>Number.prototype.toString(36)\<close> of an integer.\<close>

definition toString36 :: "int \<Rightarrow> string" where
  "toString36 n = (if n < 0 then CHR ''-'' # digits36 (- n) else digits36 n)"


section \<open>Dates of the host language\<close>

text \<open>
  A \<open>Date\<close> object holds a time value: the milliseconds since the epoch, or NaN for an
  invalid date.
\<close>

datatype Date = TimeValue int | InvalidDate

text \<open>
  The date arithmetic of the language: days and years, the month and the date of a day
  of the year (months count from 0), and the way back from fields to a time value.
\<close>

definition msPerDay :: int where
  "msPerDay = 86400000"

definition Day :: "int \<Rightarrow> int" where
  "Day t = t div msPerDay"

definition DayFromYear :: "int \<Rightarrow> int" where
  "DayFromYear y =
     365 * (y - 1970) + (y - 1969) div 4 - (y - 1901) div 100 + (y - 1601) div 400"

definition DaysInYear :: "int \<Rightarrow> int" where
  "DaysInYear y =
     (if y mod 4 \<noteq> 0 then 365 else if y mod 100 \<noteq> 0 then 366
      else if y mod 400 \<noteq> 0 then 365 else 366)"

text \<open>
  The year of a day is the last year that starts on or before it: one of the three
  years around the estimate by the mean length of a year (\<open>YearFromDay_bounds\<close>).
\<close>

definition YearFromDay :: "int \<Rightarrow> int" where
  "YearFromDay d =
     (let y0 = 1970 + (400 * d) div 146097
      in if DayFromYear (y0 + 1) \<le> d then y0 + 1
         else if DayFromYear y0 \<le> d then y0 else y0 - 1)"

definition InLeapYear :: "int \<Rightarrow> int" where
  "InLeapYear y = (if DaysInYear y = 366 then 1 else 0)"

definition monthStart :: "int \<Rightarrow> int \<Rightarrow> int" where
  "monthStart m leap =
     (if m = 0 then 0 else if m = 1 then 31
      else [59, 90, 120, 151, 181, 212, 243, 273, 304, 334] ! nat (m - 2) + leap)"

definition MonthFromDay :: "int \<Rightarrow> int \<Rightarrow> int" where
  "MonthFromDay dwy leap =
     (if dwy < 31 then 0 else if dwy < 59 + leap then 1 else if dwy < 90 + leap then 2
      else if dwy < 120 + leap then 3 else if dwy < 151 + leap then 4
      else if dwy < 181 + leap then 5 else if dwy < 212 + leap then 6
      else if dwy < 243 + leap then 7 else if dwy < 273 + leap then 8
      else if dwy < 304 + leap then 9 else if dwy < 334 + leap then 10 else 11)"

definition DateFromDay :: "int \<Rightarrow> int \<Rightarrow> int" where
  "DateFromDay dwy leap = dwy - monthStart (MonthFromDay dwy leap) leap + 1"

definition YearFromTime :: "int \<Rightarrow> int" where
  "YearFromTime t = YearFromDay (Day t)"

definition DayWithinYear :: "int \<Rightarrow> int" where
  "DayWithinYear t = Day t - DayFromYear (YearFromTime t)"

definition MonthFromTime :: "int \<Rightarrow> int" where
  "MonthFromTime t = MonthFromDay (DayWithinYear t) (InLeapYear (YearFromTime t))"

definition DateFromTime :: "int \<Rightarrow> int" where
  "DateFromTime t = DateFromDay (DayWithinYear t) (InLeapYear (YearFromTime t))"

definition HourFromTime :: "int \<Rightarrow> int" where
  "HourFromTime t = (t div 3600000) mod 24"

definition MinFromTime :: "int \<Rightarrow> int" where
  "MinFromTime t = (t div 60000) mod 60"

definition SecFromTime :: "int \<Rightarrow> int" where
  "SecFromTime t = (t div 1000) mod 60"

definition msFromTime :: "int \<Rightarrow> int" where
  "msFromTime t = t mod 1000"

definition MakeTime :: "int \<Rightarrow> int \<Rightarrow> int \<Rightarrow> int \<Rightarrow> int" where
  "MakeTime h m s ms = h * 3600000 + m * 60000 + s * 1000 + ms"

definition MakeDay :: "int \<Rightarrow> int \<Rightarrow> int \<Rightarrow> int" where
  "MakeDay y m dt =
     (let ym = y + m div 12; mn = m mod 12
      in DayFromYear ym + monthStart mn (InLeapYear ym) + dt - 1)"

definition MakeDate :: "int \<Rightarrow> int \<Rightarrow> int" where
  "MakeDate day time = day * msPerDay + time"

definition TimeClip :: "int \<Rightarrow> Date" where
  "TimeClip t = (if 8640000000000000 < \<bar>t\<bar> then InvalidDate else TimeValue t)"

text \<open>A number in \<open>n\<close> decimal digits, with leading zeros.\<close>

fun zeroPad :: "nat \<Rightarrow> int \<Rightarrow> string" where
  "zeroPad 0 k = []"
| "zeroPad (Suc n) k = zeroPad n (k div 10) @ [char_of (48 + k mod 10)]"

text \<open>Four digits for the years 0 to 9999, a sign and six digits for the others.\<close>

definition yearString :: "int \<Rightarrow> string" where
  "yearString y =
     (if 0 \<le> y \<and> y \<le> 9999 then zeroPad 4 y
      else (if y < 0 then CHR ''-'' else CHR ''+'') # zeroPad 6 \<bar>y\<bar>)"

text \<open>\<open>Date.prototype.toISOString\<close> of a valid time value: \<open>YYYY-MM-DDTHH:mm:ss.sssZ\<close>.\<close>

definition toISOString :: "int \<Rightarrow> string" where
  "toISOString t =
     yearString (YearFromTime t) @ ''-'' @ zeroPad 2 (MonthFromTime t + 1) @ ''-'' @
     zeroPad 2 (DateFromTime t) @ ''T'' @ zeroPad 2 (HourFromTime t) @ '':'' @
     zeroPad 2 (MinFromTime t) @ '':'' @ zeroPad 2 (SecFromTime t) @ ''.'' @
     zeroPad 3 (msFromTime t) @ ''Z''"

text \<open>
  Reading the same form back: \<open>number n\<close> reads \<open>n\<close> decimal digits, \<open>expect c\<close> the
  character \<open>c\<close>, \<open>yearPart\<close> a year of four digits or a sign and six digits (not
  \<open>-000000\<close>); each gives the rest of the string.
\<close>

definition digitVal :: "char \<Rightarrow> int option" where
  "digitVal c = (if 48 \<le> (of_char c :: int) \<and> (of_char c :: int) \<le> 57
                 then Some (of_char c - 48) else None)"

fun parseAcc :: "int \<Rightarrow> string \<Rightarrow> int option" where
  "parseAcc acc [] = Some acc"
| "parseAcc acc (c # cs) =
     (case digitVal c of None \<Rightarrow> None | Some v \<Rightarrow> parseAcc (10 * acc + v) cs)"

definition number :: "nat \<Rightarrow> string \<Rightarrow> (int \<times> string) option" where
  "number n s =
     (if length s < n then None
      else map_option (\<lambda>v. (v, drop n s)) (parseAcc 0 (take n s)))"

definition expect :: "char \<Rightarrow> string \<Rightarrow> string option" where
  "expect c s = (case s of [] \<Rightarrow> None | x # xs \<Rightarrow> if x = c then Some xs else None)"

definition yearPart :: "string \<Rightarrow> (int \<times> string) option" where
  "yearPart s =
     (case s of
        [] \<Rightarrow> None
      | c # cs \<Rightarrow>
          if c = CHR ''+'' then number 6 cs
          else if c = CHR ''-'' then
            (case number 6 cs of
               None \<Rightarrow> None
             | Some (y, r) \<Rightarrow> if y = 0 then None else Some (- y, r))
          else number 4 s)"

definition parseISO :: "string \<Rightarrow> int option" where
  "parseISO s0 = do {
     (y, s1) \<leftarrow> yearPart s0;
     s2 \<leftarrow> expect CHR ''-'' s1;
     (mo, s3) \<leftarrow> number 2 s2;
     s4 \<leftarrow> expect CHR ''-'' s3;
     (dd, s5) \<leftarrow> number 2 s4;
     s6 \<leftarrow> expect CHR ''T'' s5;
     (h, s7) \<leftarrow> number 2 s6;
     s8 \<leftarrow> expect CHR '':'' s7;
     (mi, s9) \<leftarrow> number 2 s8;
     s10 \<leftarrow> expect CHR '':'' s9;
     (se, s11) \<leftarrow> number 2 s10;
     s12 \<leftarrow> expect CHR ''.'' s11;
     (ms, s13) \<leftarrow> number 3 s12;
     s14 \<leftarrow> expect CHR ''Z'' s13;
     if s14 = [] \<and> 1 \<le> mo \<and> mo \<le> 12 \<and> 1 \<le> dd \<and> dd \<le> 31 \<and>
        (h < 24 \<or> (h = 24 \<and> mi = 0 \<and> se = 0 \<and> ms = 0)) \<and> mi \<le> 59 \<and> se \<le> 59
     then Some (MakeDate (MakeDay y (mo - 1) dd) (MakeTime h mi se ms))
     else None
   }"

text \<open>
  \<open>Date.parse\<close> on the complete UTC form that \<open>toISOString\<close> writes. What the language
  makes of other strings (date-only forms, offsets, the formats of each engine) is not
  modelled: they are taken as invalid.
\<close>

definition Date_parse :: "string \<Rightarrow> Date" where
  "Date_parse s = (case parseISO s of None \<Rightarrow> InvalidDate | Some t \<Rightarrow> TimeClip t)"

text \<open>
  The values that reach \<open>new Date(value)\<close> in \<open>fromJSON\<close>: a Date object when the caller
  holds an \<open>IContact\<close>, and what \<open>JSON.parse\<close> gives for a timestamp, which is a string, or
  \<open>null\<close>, or \<open>undefined\<close> when the property is missing. A Date gives its time value, a
  string is parsed, \<open>null\<close> is the number 0 and \<open>undefined\<close> is NaN.
\<close>

datatype JSValue = JSDate Date | JSString string | JSNull | JSUndefined

definition new_Date :: "JSValue \<Rightarrow> Date" where
  "new_Date v =
     (case v of
        JSDate d \<Rightarrow> d
      | JSString s \<Rightarrow> Date_parse s
      | JSNull \<Rightarrow> TimeValue 0
      | JSUndefined \<Rightarrow> InvalidDate)"

text \<open>
  \<open>Date.prototype.toJSON\<close>, which \<open>JSON.stringify\<close> calls: the ISO string of a valid date,
  \<open>null\<close> for an invalid one.
\<close>

definition Date_toJSON :: "Date \<Rightarrow> JSValue" where
  "Date_toJSON d = (case d of TimeValue t \<Rightarrow> JSString (toISOString t) | InvalidDate \<Rightarrow> JSNull)"


section \<open>Contact\<close>

text \<open>
  \<open>Omit<IContact, 'id' | 'createdAt' | 'updatedAt'>\<close> is the record \<open>ContactData\<close>, and
  \<open>IContact\<close> extends it with the three omitted fields. An optional field that is
  \<open>undefined\<close> is \<open>None\<close>. The timestamps of an \<open>IContact\<close> are Dates; the objects that
  \<open>JSON.parse\<close> returns have the same properties with timestamps of type \<open>JSValue\<close>.
\<close>

record ContactData =
  firstName :: string
  lastName :: string
  email :: string
  phone :: "string option"
  address :: "string option"

record 't IContact_of = ContactData +
  id' :: string
  createdAt :: 't
  updatedAt :: 't

type_synonym IContact = "Date IContact_of"

type_synonym Contact = IContact

text \<open>
  What the constructor reads from its environment: the text of
  \<open>Math.random().toString(36)\<close>, the reading of \<open>Date.now()\<close> in \<open>generateId\<close>, and the
  two readings of the clock by \<open>new Date()\<close>.
\<close>

record ctor_env =
  random36 :: string
  now_id :: int
  now_created :: int
  now_updated :: int

definition generateId :: "ctor_env \<Rightarrow> string" where
  "generateId env = substr 2 9 (random36 env) @ toString36 (now_id env)"

text \<open>\<open>id || this.generateId()\<close>: an id that is \<open>undefined\<close> or empty is falsy.\<close>

definition Contact_new ::
  "ctor_env \<Rightarrow> string \<Rightarrow> string \<Rightarrow> string \<Rightarrow> string option \<Rightarrow> string option \<Rightarrow> string option \<Rightarrow> Contact"
where
  "Contact_new env fn ln em ph ad ido =
     \<lparr> firstName = fn, lastName = ln, email = em, phone = ph, address = ad,
       id' = (case ido of
                None \<Rightarrow> generateId env
              | Some i \<Rightarrow> if i = [] then generateId env else i),
       createdAt = TimeValue (now_created env),
       updatedAt = TimeValue (now_updated env) \<rparr>"

definition getFullName :: "Contact \<Rightarrow> string" where
  "getFullName c = trim (firstName c @ '' '' @ lastName c)"

text \<open>
  \<open>Partial<Omit<IContact, 'id' | 'createdAt' | 'updatedAt'>>\<close>: every field may be absent
  (\<open>None\<close>). A present optional field may hold \<open>undefined\<close> (\<open>Some None\<close>).
\<close>

record PartialContactData =
  upd_firstName :: "string option"
  upd_lastName :: "string option"
  upd_email :: "string option"
  upd_phone :: "string option option"
  upd_address :: "string option option"

text \<open>\<open>Object.assign(this, data)\<close>: the properties of \<open>data\<close> overwrite those of the object.\<close>

definition assign :: "Contact \<Rightarrow> PartialContactData \<Rightarrow> Contact" where
  "assign c d =
     c\<lparr> firstName := (case upd_firstName d of None \<Rightarrow> firstName c | Some v \<Rightarrow> v),
        lastName := (case upd_lastName d of None \<Rightarrow> lastName c | Some v \<Rightarrow> v),
        email := (case upd_email d of None \<Rightarrow> email c | Some v \<Rightarrow> v),
        phone := (case upd_phone d of None \<Rightarrow> phone c | Some v \<Rightarrow> v),
        address := (case upd_address d of None \<Rightarrow> address c | Some v \<Rightarrow> v) \<rparr>"

definition update :: "int \<Rightarrow> Contact \<Rightarrow> PartialContactData \<Rightarrow> Contact" where
  "update now c d = (assign c d)\<lparr> updatedAt := TimeValue now \<rparr>"

definition toJSON :: "Contact \<Rightarrow> IContact" where
  "toJSON c =
     \<lparr> firstName = firstName c, lastName = lastName c, email = email c,
       phone = phone c, address = address c,
       id' = id' c, createdAt = createdAt c, updatedAt = updatedAt c \<rparr>"

text \<open>
  \<open>JSON.parse(JSON.stringify(x))\<close> for the object \<open>x\<close> that \<open>toJSON\<close> returns: a string
  comes back as it is, a property that holds \<open>undefined\<close> is left out and reads as
  \<open>undefined\<close>, and a Date is written by \<open>Date.prototype.toJSON\<close>. The text in between
  is not modelled.
\<close>

definition JSON_parse_stringify :: "IContact \<Rightarrow> JSValue IContact_of" where
  "JSON_parse_stringify x =
     \<lparr> firstName = firstName x, lastName = lastName x, email = email x,
       phone = phone x, address = address x,
       id' = id' x, createdAt = Date_toJSON (createdAt x),
       updatedAt = Date_toJSON (updatedAt x) \<rparr>"

text \<open>An \<open>IContact\<close> passed as it is: its timestamps are Date objects.\<close>

definition as_data :: "IContact \<Rightarrow> JSValue IContact_of" where
  "as_data x =
     \<lparr> firstName = firstName x, lastName = lastName x, email = email x,
       phone = phone x, address = address x,
       id' = id' x, createdAt = JSDate (createdAt x), updatedAt = JSDate (updatedAt x) \<rparr>"

definition fromJSON :: "ctor_env \<Rightarrow> JSValue IContact_of \<Rightarrow> Contact" where
  "fromJSON env data =
     (Contact_new env (firstName data) (lastName data) (email data) (phone data)
        (address data) (Some (id' data)))
       \<lparr> createdAt := new_Date (createdAt data),
         updatedAt := new_Date (updatedAt data) \<rparr>"


section \<open>The storage port\<close>

text \<open>A thrown \<open>Error\<close> with its message.\<close>

datatype error = Error string

definition DuplicateEmail :: error where
  "DuplicateEmail = Error ''A contact with this email already exists''"

definition NotFound :: error where
  "NotFound = Error ''Contact not found''"

definition PersistenceWriteFailure :: error where
  "PersistenceWriteFailure = Error ''Failed to save contacts''"

text \<open>
  \<open>IContactStorage\<close> over a store of type \<open>'st\<close>. \<open>save\<close> receives the contacts as they
  are at the call and returns the error it throws, if any, with the store it leaves;
  \<open>clear\<close> never throws. (\<open>load\<close> is called by the constructor only: its result is an
  argument of \<open>ContactManager_new\<close>.)
\<close>

record 'st IContactStorage =
  save :: "Contact list \<Rightarrow> 'st \<Rightarrow> error option \<times> 'st"
  clear :: "'st \<Rightarrow> 'st"

text \<open>
  \<open>LocalStorageManager\<close>: the store is the item under \<open>STORAGE_KEY\<close>, held as what
  \<open>JSON.parse\<close> reads back from it. \<open>setItem_throws\<close> tells on which data
  \<open>localStorage.setItem\<close> throws (a full quota); the \<open>catch\<close> of \<open>save\<close> rethrows as
  'Failed to save contacts', and \<open>clear\<close> removes the item.
\<close>

definition LocalStorageManager ::
  "(IContact list \<Rightarrow> bool) \<Rightarrow> (JSValue IContact_of list option) IContactStorage"
where
  "LocalStorageManager setItem_throws =
     \<lparr> save = (\<lambda>cs st.
          let data = map toJSON cs
          in if setItem_throws data then (Some (Error ''Failed to save contacts''), st)
             else (None, Some (map JSON_parse_stringify data))),
       clear = (\<lambda>st. None) \<rparr>"

text \<open>
  \<open>load\<close> of the \<open>LocalStorageManager\<close>: no item gives no contacts, and each parsed object
  goes through \<open>fromJSON\<close>; \<open>envs k\<close> is what the constructor reads for the object at
  index \<open>k\<close>.
\<close>

definition LocalStorageManager_load ::
  "(nat \<Rightarrow> ctor_env) \<Rightarrow> JSValue IContact_of list option \<Rightarrow> Contact list"
where
  "LocalStorageManager_load envs st =
     (case st of
        None \<Rightarrow> []
      | Some parsed \<Rightarrow> map (\<lambda>(k, contactData). fromJSON (envs k) contactData) (enumerate 0 parsed))"


section \<open>ContactManager\<close>

text \<open>
  Contacts are objects: \<open>contacts\<close> and \<open>filteredContacts\<close> are arrays of references into
  \<open>heap\<close>, so that an update through one array is seen through the other. \<open>nextRef\<close> is
  the next reference that \<open>new\<close> hands out.
\<close>

record 'st ContactManager =
  heap :: "nat \<Rightarrow> Contact option"
  nextRef :: nat
  contacts :: "nat list"
  filteredContacts :: "nat list"
  storage :: 'st

definition obj :: "'st ContactManager \<Rightarrow> nat \<Rightarrow> Contact" where
  "obj s r = the (heap s r)"

text \<open>\<open>loadContacts\<close>, on the contacts that \<open>storage.load()\<close> returned.\<close>

definition ContactManager_new :: "Contact list \<Rightarrow> 'st \<Rightarrow> 'st ContactManager" where
  "ContactManager_new loaded st =
     \<lparr> heap = (\<lambda>r. if r < length loaded then Some (loaded ! r) else None),
       nextRef = length loaded,
       contacts = [0..<length loaded],
       filteredContacts = [0..<length loaded],
       storage = st \<rparr>"

definition saveContacts ::
  "'st IContactStorage \<Rightarrow> 'st ContactManager \<Rightarrow> error option \<times> 'st ContactManager"
where
  "saveContacts port s =
     (case save port (map (obj s) (contacts s)) (storage s) of
        (e, st) \<Rightarrow> (e, s\<lparr> storage := st \<rparr>))"

definition findById :: "'st ContactManager \<Rightarrow> string \<Rightarrow> nat option" where
  "findById s i = find (\<lambda>r. id' (obj s r) = i) (contacts s)"

definition findByEmail :: "'st ContactManager \<Rightarrow> string \<Rightarrow> nat option" where
  "findByEmail s e =
     find (\<lambda>r. toLowerCase (email (obj s r)) = toLowerCase e) (contacts s)"

definition getAllContacts :: "'st ContactManager \<Rightarrow> Contact list" where
  "getAllContacts s = map (obj s) (contacts s)"

definition getFilteredContacts :: "'st ContactManager \<Rightarrow> Contact list" where
  "getFilteredContacts s = map (obj s) (filteredContacts s)"

text \<open>The predicate of the filter in \<open>searchContacts\<close>.\<close>

definition matches :: "string \<Rightarrow> Contact \<Rightarrow> bool" where
  "matches searchTerm c =
     (includes_str (toLowerCase (firstName c)) searchTerm \<or>
      includes_str (toLowerCase (lastName c)) searchTerm \<or>
      includes_str (toLowerCase (email c)) searchTerm \<or>
      includes_str (toLowerCase (getFullName c)) searchTerm)"

definition searchContacts ::
  "string \<Rightarrow> 'st ContactManager \<Rightarrow> nat list \<times> 'st ContactManager"
where
  "searchContacts query s =
     (if trim query = [] then (contacts s, s\<lparr> filteredContacts := contacts s \<rparr>)
      else
        let searchTerm = trim (toLowerCase query);
            found = filter (\<lambda>r. matches searchTerm (obj s r)) (contacts s)
        in (found, s\<lparr> filteredContacts := found \<rparr>))"

text \<open>
  \<open>applyCurrentFilter\<close> reads the query from the page: \<open>searchInput\<close> is the value of the
  element with id 'searchInput', \<open>None\<close> when the page has no such element.
\<close>

definition applyCurrentFilter :: "string option \<Rightarrow> 'st ContactManager \<Rightarrow> 'st ContactManager" where
  "applyCurrentFilter searchInput s =
     (case searchInput of
        None \<Rightarrow> s\<lparr> filteredContacts := contacts s \<rparr>
      | Some v \<Rightarrow>
          if trim v = [] then s\<lparr> filteredContacts := contacts s \<rparr>
          else snd (searchContacts v s))"

text \<open>
  The operations return what the caller gets (\<open>Inl\<close> a thrown error) together with the
  manager as the call leaves it: what was mutated before a throw stays mutated.
\<close>

definition addContact ::
  "'st IContactStorage \<Rightarrow> string option \<Rightarrow> ctor_env \<Rightarrow> ContactData \<Rightarrow> 'st ContactManager
     \<Rightarrow> (error + nat) \<times> 'st ContactManager"
where
  "addContact port searchInput env contactData s =
     (case findByEmail s (email contactData) of
        Some r \<Rightarrow> (Inl (Error ''A contact with this email already exists''), s)
      | None \<Rightarrow>
          let contact = Contact_new env (firstName contactData) (lastName contactData)
                (email contactData) (phone contactData) (address contactData) None;
              r = nextRef s;
              s1 = s\<lparr> heap := (heap s)(r \<mapsto> contact), nextRef := Suc r,
                      contacts := contacts s @ [r] \<rparr>
          in (case saveContacts port s1 of
                (Some e, s2) \<Rightarrow> (Inl e, s2)
              | (None, s2) \<Rightarrow> (Inr r, applyCurrentFilter searchInput s2)))"

text \<open>
  The uniqueness check of \<open>updateContact\<close>, for the contact \<open>r\<close> that \<open>findById\<close>
  found: \<open>updateData.email && updateData.email !== contact.email\<close>, and then
  \<open>existingContact && existingContact.id !== id\<close>. An absent and an empty email are
  both falsy.
\<close>

definition emailConflict ::
  "'st ContactManager \<Rightarrow> string \<Rightarrow> nat \<Rightarrow> PartialContactData \<Rightarrow> bool"
where
  "emailConflict s i r updateData =
     (case upd_email updateData of
        None \<Rightarrow> False
      | Some e \<Rightarrow>
          e \<noteq> [] \<and> e \<noteq> email (obj s r) \<and>
          (case findByEmail s e of
             None \<Rightarrow> False
           | Some r' \<Rightarrow> id' (obj s r') \<noteq> i))"

definition updateContact ::
  "'st IContactStorage \<Rightarrow> string option \<Rightarrow> int \<Rightarrow> string \<Rightarrow> PartialContactData
     \<Rightarrow> 'st ContactManager \<Rightarrow> (error + nat) \<times> 'st ContactManager"
where
  "updateContact port searchInput now i updateData s =
     (case findById s i of
        None \<Rightarrow> (Inl (Error ''Contact not found''), s)
      | Some r \<Rightarrow>
          if emailConflict s i r updateData
          then (Inl (Error ''A contact with this email already exists''), s)
          else
            let s1 = s\<lparr> heap := (heap s)(r \<mapsto> update now (obj s r) updateData) \<rparr>
            in (case saveContacts port s1 of
                  (Some e, s2) \<Rightarrow> (Inl e, s2)
                | (None, s2) \<Rightarrow> (Inr r, applyCurrentFilter searchInput s2)))"

text \<open>\<open>Array.prototype.findIndex\<close>, with \<open>None\<close> for -1.\<close>

fun findIndex :: "('a \<Rightarrow> bool) \<Rightarrow> 'a list \<Rightarrow> nat option" where
  "findIndex P [] = None"
| "findIndex P (x # xs) =
     (if P x then Some 0 else map_option Suc (findIndex P xs))"

text \<open>\<open>splice(index, 1)\<close>.\<close>

definition splice1 :: "nat \<Rightarrow> 'a list \<Rightarrow> 'a list" where
  "splice1 index xs = take index xs @ drop (Suc index) xs"

definition deleteContact ::
  "'st IContactStorage \<Rightarrow> string option \<Rightarrow> string \<Rightarrow> 'st ContactManager
     \<Rightarrow> (error + bool) \<times> 'st ContactManager"
where
  "deleteContact port searchInput i s =
     (case findIndex (\<lambda>r. id' (obj s r) = i) (contacts s) of
        None \<Rightarrow> (Inr False, s)
      | Some index \<Rightarrow>
          let s1 = s\<lparr> contacts := splice1 index (contacts s) \<rparr>
          in (case saveContacts port s1 of
                (Some e, s2) \<Rightarrow> (Inl e, s2)
              | (None, s2) \<Rightarrow> (Inr True, applyCurrentFilter searchInput s2)))"

definition getContactCount :: "'st ContactManager \<Rightarrow> nat" where
  "getContactCount s = length (contacts s)"

definition getFilteredContactCount :: "'st ContactManager \<Rightarrow> nat" where
  "getFilteredContactCount s = length (filteredContacts s)"

definition clearAllContacts :: "'st IContactStorage \<Rightarrow> 'st ContactManager \<Rightarrow> 'st ContactManager" where
  "clearAllContacts port s =
     s\<lparr> contacts := [], filteredContacts := [], storage := clear port (storage s) \<rparr>"


section \<open>Properties of a directory state\<close>

text \<open>No two contacts of the collection have emails that are equal up to case.\<close>

definition email_unique :: "'st ContactManager \<Rightarrow> bool" where
  "email_unique s = distinct (map (\<lambda>r. toLowerCase (email (obj s r))) (contacts s))"

text \<open>No two contacts of the collection have the same id.\<close>

definition ids_unique :: "'st ContactManager \<Rightarrow> bool" where
  "ids_unique s = distinct (map (\<lambda>r. id' (obj s r)) (contacts s))"

text \<open>Every reference of the collection was handed out by \<open>new\<close>.\<close>

definition refs_allocated :: "'st ContactManager \<Rightarrow> bool" where
  "refs_allocated s = list_all (\<lambda>r. r < nextRef s) (contacts s)"

definition directory_ok :: "'st ContactManager \<Rightarrow> bool" where
  "directory_ok s = (email_unique s \<and> ids_unique s \<and> refs_allocated s)"

text \<open>A Date within the range of time values, which every valid Date is.\<close>

definition validDate :: "Date \<Rightarrow> bool" where
  "validDate d = (case d of TimeValue t \<Rightarrow> \<bar>t\<bar> \<le> 8640000000000000 | InvalidDate \<Rightarrow> False)"

text \<open>
  The contact that \<open>addContact\<close> builds, the manager once \<open>update\<close> has written into the
  object of \<open>r\<close>, and the manager once \<open>splice\<close> has removed the entry at \<open>index\<close>.
\<close>

definition contactOf :: "ctor_env \<Rightarrow> ContactData \<Rightarrow> Contact" where
  "contactOf env d =
     Contact_new env (firstName d) (lastName d) (email d) (phone d) (address d) None"

definition updated ::
  "'st ContactManager \<Rightarrow> nat \<Rightarrow> int \<Rightarrow> PartialContactData \<Rightarrow> 'st ContactManager"
where
  "updated s r now d = s\<lparr> heap := (heap s)(r \<mapsto> update now (obj s r) d) \<rparr>"

definition removed :: "'st ContactManager \<Rightarrow> nat \<Rightarrow> 'st ContactManager" where
  "removed s index = s\<lparr> contacts := splice1 index (contacts s) \<rparr>"

text \<open>
  The words of the specification for the search predicate: a field contains the query
  as a case-insensitive substring.
\<close>

definition containsCI :: "string \<Rightarrow> string \<Rightarrow> bool" where
  "containsCI field q = includes_str (toLowerCase field) (toLowerCase q)"

definition spec_matches :: "string \<Rightarrow> Contact \<Rightarrow> bool" where
  "spec_matches q c =
     (containsCI (firstName c) q \<or> containsCI (lastName c) q \<or>
      containsCI (email c) q \<or> containsCI (getFullName c) q)"

definition spec_view :: "string \<Rightarrow> 'st ContactManager \<Rightarrow> nat list" where
  "spec_view q s = filter (\<lambda>r. spec_matches q (obj s r)) (contacts s)"

text \<open>
  The view that the value of the search box of the page asks for: the whole collection
  when the box is missing or blank, the matches of its value otherwise.
\<close>

definition currentView :: "string option \<Rightarrow> 'st ContactManager \<Rightarrow> nat list" where
  "currentView searchInput s =
     (case searchInput of
        None \<Rightarrow> contacts s
      | Some v \<Rightarrow>
          if trim v = [] then contacts s
          else filter (\<lambda>r. matches (trim (toLowerCase v)) (obj s r)) (contacts s))"


section \<open>Example data\<close>

text \<open>A port that counts the calls it receives, and never fails.\<close>

definition countingStorage :: "nat IContactStorage" where
  "countingStorage = \<lparr> save = (\<lambda>cs n. (None, Suc n)), clear = (\<lambda>n. Suc n) \<rparr>"

definition env1 :: ctor_env where
  "env1 = \<lparr> random36 = ''0.4fzyo82mvyr'', now_id = 1700000000000,
            now_created = 1700000000000, now_updated = 1700000000000 \<rparr>"

definition env2 :: ctor_env where
  "env2 = \<lparr> random36 = ''0.k2j8x1qp0zd'', now_id = 1700000005000,
            now_created = 1700000005000, now_updated = 1700000005000 \<rparr>"

definition ada :: ContactData where
  "ada = \<lparr> firstName = ''Ada'', lastName = ''Lovelace'', email = ''ada@x.com'',
           phone = None, address = None \<rparr>"

definition al :: ContactData where
  "al = \<lparr> firstName = ''Al'', lastName = ''Turing'', email = ''ADA@X.COM'',
          phone = None, address = None \<rparr>"

definition alan :: ContactData where
  "alan = \<lparr> firstName = ''Alan'', lastName = ''Turing'', email = ''alan@x.com'',
            phone = Some ''555'', address = None \<rparr>"

definition empty_dir :: "nat ContactManager" where
  "empty_dir = ContactManager_new [] 0"

text \<open>The directory after Ada was added, and after Alan was added too.\<close>

definition dir1 :: "nat ContactManager" where
  "dir1 = snd (addContact countingStorage None env1 ada empty_dir)"

definition dir2 :: "nat ContactManager" where
  "dir2 = snd (addContact countingStorage None env2 alan dir1)"

definition id1 :: string where
  "id1 = generateId env1"

definition id2 :: string where
  "id2 = generateId env2"


text \<open>A \<open>LocalStorageManager\<close> over a full store: every \<open>setItem\<close> throws.\<close>

definition fullStorage :: "(JSValue IContact_of list option) IContactStorage" where
  "fullStorage = LocalStorageManager (\<lambda>data. True)"

text \<open>A directory that loaded Ada from the store.\<close>

definition loaded_dir :: "(JSValue IContact_of list option) ContactManager" where
  "loaded_dir =
     ContactManager_new [Contact_new env1 ''Ada'' ''Lovelace'' ''ada@x.com'' None None None] None"

text \<open>Partial updates: a case variant of Ada's email, a new first name with the phone
  set to \<open>undefined\<close>, and an empty email.\<close>

definition caseVariant :: PartialContactData where
  "caseVariant = \<lparr> upd_firstName = None, upd_lastName = None, upd_email = Some ''Ada@X.Com'',
      upd_phone = None, upd_address = None \<rparr>"

definition rename :: PartialContactData where
  "rename = \<lparr> upd_firstName = Some ''Alan M.'', upd_lastName = None, upd_email = None,
      upd_phone = Some None, upd_address = None \<rparr>"

definition blankEmail :: PartialContactData where
  "blankEmail = \<lparr> upd_firstName = None, upd_lastName = None, upd_email = Some [],
      upd_phone = None, upd_address = None \<rparr>"

definition nobody :: ContactData where
  "nobody = \<lparr> firstName = ''No'', lastName = ''Body'', email = [],
           phone = None, address = None \<rparr>"

text \<open>The directory of Ada after a search for 'zzz'.\<close>

definition dir1_zzz :: "nat ContactManager" where
  "dir1_zzz = snd (searchContacts ''zzz'' dir1)"

text \<open>The directory of Ada and Alan after the email of Ada, and then that of Alan, was
  updated to the empty string.\<close>

definition dir3 :: "nat ContactManager" where
  "dir3 = snd (updateContact countingStorage None 1700000009000 id1 blankEmail dir2)"

definition dir4 :: "nat ContactManager" where
  "dir4 = snd (updateContact countingStorage None 1700000009500 id2 blankEmail dir3)"

text \<open>Three operations while the search box of the page holds 'tur'.\<close>

definition dir2_tur :: "nat ContactManager" where
  "dir2_tur = snd (addContact countingStorage (Some ''tur'') env2 alan dir1)"

definition dir2_upd :: "nat ContactManager" where
  "dir2_upd = snd (updateContact countingStorage (Some ''tur'') 1700000009000 id1 rename dir2)"

definition dir2_del :: "nat ContactManager" where
  "dir2_del = snd (deleteContact countingStorage (Some ''tur'') id1 dir2)"


text \<open>
  A directory loaded from a store that holds two contacts whose emails differ by case
  only: \<open>load\<close> checks nothing.
\<close>

definition twins :: "nat ContactManager" where
  "twins =
     ContactManager_new
       [Contact_new env1 ''Ada'' ''Lovelace'' ''ada@x.com'' None None None,
        Contact_new env2 ''Ada'' ''Byron'' ''ADA@x.com'' None None None] 0"

text \<open>The directory with two empty emails, after Carl was added, and a case variant of
  the email of Carl.\<close>

definition env3 :: ctor_env where
  "env3 = \<lparr> random36 = ''0.c7r1q9zzk0a'', now_id = 1700000010000,
            now_created = 1700000010000, now_updated = 1700000010000 \<rparr>"

definition carl :: ContactData where
  "carl = \<lparr> firstName = ''Carl'', lastName = ''Gauss'', email = ''carl@x.com'',
            phone = None, address = None \<rparr>"

definition dir5 :: "nat ContactManager" where
  "dir5 = snd (addContact countingStorage None env3 carl dir4)"

definition id3 :: string where
  "id3 = generateId env3"

definition carlVariant :: PartialContactData where
  "carlVariant = \<lparr> upd_firstName = None, upd_lastName = None, upd_email = Some ''CARL@x.com'',
      upd_phone = None, upd_address = None \<rparr>"

text \<open>
  A contact built by the constructor; an entry of the store without \<open>createdAt\<close> and the
  contact that \<open>fromJSON\<close> makes of it; a contact whose id was set to the empty string.
\<close>

definition ada_contact :: Contact where
  "ada_contact = Contact_new env1 ''Ada'' ''Lovelace'' ''ada@x.com'' (Some ''555'') None None"

definition unstamped :: "JSValue IContact_of" where
  "unstamped =
     \<lparr> firstName = ''Ada'', lastName = ''Lovelace'', email = ''ada@x.com'',
       phone = None, address = None, id' = ''a1'',
       createdAt = JSUndefined, updatedAt = JSString ''2023-11-14T22:13:20.000Z'' \<rparr>"

definition broken :: Contact where
  "broken = fromJSON env1 unstamped"

definition anonymous :: Contact where
  "anonymous = ada_contact\<lparr> id' := [] \<rparr>"


section \<open>Strings: trimming, lower case, containment\<close>

lemma digits36_nonempty: "digits36 n \<noteq> []"
  by (subst digits36.simps) simp

lemma toString36_nonempty: "toString36 n \<noteq> []"
  by (simp add: toString36_def digits36_nonempty)

lemma generateId_nonempty: "generateId env \<noteq> []"
  by (simp add: generateId_def toString36_nonempty)

lemma isWhiteSpace_code:
  "isWhiteSpace c \<longleftrightarrow> (of_char c :: nat) \<in> {9, 10, 11, 12, 13, 32, 160}"
proof -
  have *: "(c = d) = ((of_char c :: nat) = of_char d)" for d
    by simp
  show ?thesis
    unfolding isWhiteSpace_def by (simp add: * del: of_char_eq_iff)
qed

text \<open>Lower-casing neither makes nor removes white space.\<close>

lemma isWhiteSpace_lowerChar: "isWhiteSpace (lowerChar c) = isWhiteSpace c"
proof (cases "isUpper (of_char c)")
  case True
  then have "of_char (char_of (of_char c + (32::nat))) = (of_char c + 32 :: nat)"
    by (auto simp add: isUpper_def)
  with True show ?thesis
    by (auto simp add: isWhiteSpace_code lowerChar_def isUpper_def)
next
  case False
  then show ?thesis by (simp add: lowerChar_def)
qed

lemma isWhiteSpace_comp_lowerChar: "isWhiteSpace \<circ> lowerChar = isWhiteSpace"
  by (rule ext) (simp add: isWhiteSpace_lowerChar)

lemma toLowerCase_trimStart: "toLowerCase (trimStart s) = trimStart (toLowerCase s)"
  by (simp add: toLowerCase_def trimStart_def dropWhile_map isWhiteSpace_comp_lowerChar)

lemma toLowerCase_trimEnd: "toLowerCase (trimEnd s) = trimEnd (toLowerCase s)"
  by (simp add: toLowerCase_def trimEnd_def dropWhile_map rev_map isWhiteSpace_comp_lowerChar)

lemma toLowerCase_trim: "toLowerCase (trim s) = trim (toLowerCase s)"
  by (simp add: trim_def toLowerCase_trimStart toLowerCase_trimEnd)

lemma trimEnd_decomp: "trimEnd s @ rev (takeWhile isWhiteSpace (rev s)) = s"
proof -
  have "rev (takeWhile isWhiteSpace (rev s) @ dropWhile isWhiteSpace (rev s)) = s"
    by simp
  then show ?thesis
    unfolding trimEnd_def by (simp only: rev_append)
qed

text \<open>What \<open>trimEnd\<close> leaves of a string without leading white space has none either.\<close>

lemma trimStart_trimEnd_trimStart: "trimStart (trimEnd (trimStart s)) = trimEnd (trimStart s)"
proof (cases "trimEnd (trimStart s) = []")
  case True
  then show ?thesis by (simp add: trimStart_def)
next
  case False
  have d: "trimEnd (trimStart s) @ rev (takeWhile isWhiteSpace (rev (trimStart s))) = trimStart s"
    by (rule trimEnd_decomp)
  from False d have ne: "trimStart s \<noteq> []"
    by auto
  from False d have "hd (trimEnd (trimStart s)) = hd (trimStart s)"
    by (metis hd_append2)
  moreover from ne have "\<not> isWhiteSpace (hd (trimStart s))"
    unfolding trimStart_def by (rule hd_dropWhile)
  ultimately show ?thesis
    unfolding trimStart_def [of "trimEnd (trimStart s)"] by (simp add: dropWhile_eq_self_iff)
qed

lemma trimEnd_idem: "trimEnd (trimEnd s) = trimEnd s"
  by (simp add: trimEnd_def)

lemma trim_idem: "trim (trim s) = trim s"
  by (simp add: trim_def trimStart_trimEnd_trimStart trimEnd_idem)

lemma startsWith_prefix: "startsWith s t \<longleftrightarrow> prefix t s"
  by (induction s t rule: startsWith.induct) auto

text \<open>\<open>includes_str\<close> is the substring test.\<close>

lemma includes_str_sublist: "includes_str s t \<longleftrightarrow> sublist t s"
  by (induction s) (auto simp: startsWith_prefix sublist_Cons_right)


section \<open>Dates: the ISO form and back\<close>

lemma div_succ:
  fixes x n :: int
  assumes "0 < n"
  shows "(x + 1) div n = x div n + (if (x + 1) mod n = 0 then 1 else 0)"
proof (cases "x mod n = n - 1")
  case True
  have "x + 1 = n * (x div n) + x mod n + 1"
    by simp
  also have "\<dots> = n * (x div n + 1) + 0"
    by (simp add: True algebra_simps)
  finally have eq: "x + 1 = n * (x div n + 1) + 0" .
  from assms have "(x + 1) div n = x div n + 1"
    by (intro int_div_pos_eq [OF eq]) simp_all
  moreover from assms have "(x + 1) mod n = 0"
    by (intro int_mod_pos_eq [OF eq]) simp_all
  ultimately show ?thesis
    by simp
next
  case False
  have nn: "0 \<le> x mod n" "x mod n < n"
    using assms by simp_all
  with False have r: "0 \<le> x mod n + 1" "x mod n + 1 < n"
    by simp_all
  have "x = n * (x div n) + x mod n"
    by simp
  then have eq: "x + 1 = n * (x div n) + (x mod n + 1)"
    by simp
  have "(x + 1) div n = x div n"
    by (rule int_div_pos_eq [OF eq r])
  moreover have "(x + 1) mod n = x mod n + 1"
    by (rule int_mod_pos_eq [OF eq r])
  ultimately show ?thesis
    using nn by simp
qed

lemma mod_shift:
  fixes y :: int
  shows "(y - 1968) mod 4 = y mod 4" "(y - 1900) mod 100 = y mod 100"
    "(y - 1600) mod 400 = y mod 400"
proof -
  have "(y + 4 * (- 492)) mod 4 = y mod 4" "(y + 100 * (- 19)) mod 100 = y mod 100"
    "(y + 400 * (- 4)) mod 400 = y mod 400"
    by (rule mod_mult_self2)+
  then show "(y - 1968) mod 4 = y mod 4" "(y - 1900) mod 100 = y mod 100"
    "(y - 1600) mod 400 = y mod 400"
    by simp_all
qed

lemma mod_400_100_4:
  fixes y :: int
  shows "y mod 400 = 0 \<Longrightarrow> y mod 100 = 0" "y mod 100 = 0 \<Longrightarrow> y mod 4 = 0"
proof -
  have "(y mod 400) mod 100 = y mod 100" "(y mod 100) mod 4 = y mod 4"
    by (rule mod_mod_cancel; simp)+
  then show "y mod 400 = 0 \<Longrightarrow> y mod 100 = 0" "y mod 100 = 0 \<Longrightarrow> y mod 4 = 0"
    by auto
qed

text \<open>A year has as many days as lie between its first day and that of the next.\<close>

lemma DayFromYear_next: "DayFromYear (y + 1) = DayFromYear y + DaysInYear y"
proof -
  have a: "(y - 1968) div 4 = (y - 1969) div 4 + (if y mod 4 = 0 then 1 else 0)"
    using div_succ [of 4 "y - 1969"] mod_shift(1) [of y] by simp
  have b: "(y - 1900) div 100 = (y - 1901) div 100 + (if y mod 100 = 0 then 1 else 0)"
    using div_succ [of 100 "y - 1901"] mod_shift(2) [of y] by simp
  have c: "(y - 1600) div 400 = (y - 1601) div 400 + (if y mod 400 = 0 then 1 else 0)"
    using div_succ [of 400 "y - 1601"] mod_shift(3) [of y] by simp
  have "DayFromYear (y + 1) =
      365 * (y - 1969) + (y - 1968) div 4 - (y - 1900) div 100 + (y - 1600) div 400"
    by (simp add: DayFromYear_def)
  then show ?thesis
    using mod_400_100_4 [of y]
    by (auto simp add: a b c DayFromYear_def DaysInYear_def)
qed

lemma div_mod_bounds:
  fixes x n :: int
  assumes "0 < n"
  shows "n * (x div n) \<le> x" "x \<le> n * (x div n) + (n - 1)"
proof -
  have "x = n * (x div n) + x mod n" by simp
  moreover have "0 \<le> x mod n" "x mod n < n" using assms by simp_all
  ultimately show "n * (x div n) \<le> x" "x \<le> n * (x div n) + (n - 1)"
    by linarith+
qed

text \<open>The first day of a year lies within two days of 365.2425 days a year.\<close>

lemma DayFromYear_bounds:
  "400 * DayFromYear y \<le> 146097 * y - 287810501"
  "146097 * y - 287811596 \<le> 400 * DayFromYear y"
proof -
  define a b c where "a = (y - 1969) div 4" and "b = (y - 1901) div 100"
    and "c = (y - 1601) div 400"
  have f: "4 * a \<le> y - 1969" "y - 1969 \<le> 4 * a + 3"
    "100 * b \<le> y - 1901" "y - 1901 \<le> 100 * b + 99"
    "400 * c \<le> y - 1601" "y - 1601 \<le> 400 * c + 399"
    unfolding a_def b_def c_def
    using div_mod_bounds [of 4 "y - 1969"] div_mod_bounds [of 100 "y - 1901"]
      div_mod_bounds [of 400 "y - 1601"]
    by simp_all
  have d: "DayFromYear y = 365 * (y - 1970) + a - b + c"
    by (simp add: DayFromYear_def a_def b_def c_def)
  from f show "400 * DayFromYear y \<le> 146097 * y - 287810501"
    by (simp add: d algebra_simps)
  from f show "146097 * y - 287811596 \<le> 400 * DayFromYear y"
    by (simp add: d algebra_simps)
qed

text \<open>The year of a day holds the day.\<close>

lemma YearFromDay_bounds:
  "DayFromYear (YearFromDay d) \<le> d \<and> d < DayFromYear (YearFromDay d + 1)"
proof -
  define y0 where "y0 = 1970 + (400 * d) div 146097"
  have q: "146097 * ((400 * d) div 146097) \<le> 400 * d"
    "400 * d \<le> 146097 * ((400 * d) div 146097) + 146096"
    using div_mod_bounds [of 146097 "400 * d", simplified] by simp_all
  have lo: "DayFromYear (y0 - 1) \<le> d"
    using DayFromYear_bounds(1) [of "y0 - 1"] q by (simp add: y0_def)
  have hi: "d < DayFromYear (y0 + 2)"
    using DayFromYear_bounds(2) [of "y0 + 2"] q by (simp add: y0_def)
  have "YearFromDay d = (if DayFromYear (y0 + 1) \<le> d then y0 + 1
         else if DayFromYear y0 \<le> d then y0 else y0 - 1)"
    by (simp add: YearFromDay_def y0_def Let_def)
  with lo hi show ?thesis
    by (auto simp add: add.commute)
qed

lemma length_zeroPad: "length (zeroPad n k) = n"
  by (induction n arbitrary: k) simp_all

lemma digitVal_digit:
  "0 \<le> (d::int) \<Longrightarrow> d < 10 \<Longrightarrow> digitVal (char_of (48 + d)) = Some d"
  by (simp add: digitVal_def)

lemma parseAcc_append:
  "parseAcc acc (xs @ ys) = (case parseAcc acc xs of None \<Rightarrow> None | Some a \<Rightarrow> parseAcc a ys)"
  by (induction xs arbitrary: acc) (simp_all split: option.splits)

lemma parseAcc_zeroPad:
  "0 \<le> k \<Longrightarrow> k < 10 ^ n \<Longrightarrow> parseAcc acc (zeroPad n k) = Some (acc * 10 ^ n + k)"
proof (induction n arbitrary: k)
  case 0
  then show ?case by simp
next
  case (Suc n)
  from Suc.prems have "0 \<le> k div 10" "k div 10 < 10 ^ n"
    by (simp_all add: div_less_iff_less_mult flip: zdiv_zmult2_eq)
  then have "parseAcc acc (zeroPad n (k div 10)) = Some (acc * 10 ^ n + k div 10)"
    by (rule Suc.IH)
  moreover have "digitVal (char_of (48 + k mod 10)) = Some (k mod 10)"
    by (rule digitVal_digit) simp_all
  ultimately show ?case
    by (simp add: parseAcc_append algebra_simps)
qed

lemma number_zeroPad:
  "0 \<le> k \<Longrightarrow> k < 10 ^ n \<Longrightarrow> number n (zeroPad n k @ r) = Some (k, r)"
  by (simp add: number_def length_zeroPad parseAcc_zeroPad)

lemma expect_Cons: "expect c (c # r) = Some r"
  by (simp add: expect_def)

lemma zeroPad_starts_with_digit:
  "0 < n \<Longrightarrow> \<exists>(d::int) rest. 0 \<le> d \<and> d < 10 \<and> zeroPad n k = char_of (48 + d) # rest"
proof (induction n arbitrary: k)
  case 0
  then show ?case by simp
next
  case (Suc n)
  show ?case
  proof (cases n)
    case 0
    have "0 \<le> k mod 10 \<and> k mod 10 < 10 \<and> zeroPad (Suc 0) k = char_of (48 + k mod 10) # []"
      by simp
    with 0 show ?thesis by blast
  next
    case (Suc m)
    then obtain d :: int and rest
      where "0 \<le> d" "d < 10" "zeroPad n (k div 10) = char_of (48 + d) # rest"
      using Suc.IH [of "k div 10"] by auto
    then have "0 \<le> d \<and> d < 10 \<and>
        zeroPad (Suc n) k = char_of (48 + d) # (rest @ [char_of (48 + k mod 10)])"
      by simp
    then show ?thesis by blast
  qed
qed

lemma digit_not_sign:
  assumes "0 \<le> (d::int)" "d < 10"
  shows "char_of (48 + d) \<noteq> CHR ''+'' \<and> char_of (48 + d) \<noteq> CHR ''-''"
proof -
  from assms have e: "(of_char (char_of (48 + d)) :: int) = 48 + d"
    by simp
  have "char_of (48 + d) \<noteq> CHR ''+''"
  proof
    assume "char_of (48 + d) = CHR ''+''"
    then have "(of_char (char_of (48 + d)) :: int) = of_char CHR ''+''"
      by simp
    with e assms show False by simp
  qed
  moreover have "char_of (48 + d) \<noteq> CHR ''-''"
  proof
    assume "char_of (48 + d) = CHR ''-''"
    then have "(of_char (char_of (48 + d)) :: int) = of_char CHR ''-''"
      by simp
    with e assms show False by simp
  qed
  ultimately show ?thesis by simp
qed

lemma yearPart_yearString:
  assumes "\<bar>y\<bar> < 1000000"
  shows "yearPart (yearString y @ r) = Some (y, r)"
proof (cases "0 \<le> y \<and> y \<le> 9999")
  case True
  obtain d :: int and rest where d: "0 \<le> d" "d < 10" "zeroPad 4 y = char_of (48 + d) # rest"
    using zeroPad_starts_with_digit [of 4 y] by auto
  have "number 4 (zeroPad 4 y @ r) = Some (y, r)"
    using True by (intro number_zeroPad) simp_all
  with True d digit_not_sign [OF d(1,2)] show ?thesis
    by (simp add: yearPart_def yearString_def)
next
  case False
  have n: "number 6 (zeroPad 6 \<bar>y\<bar> @ r) = Some (\<bar>y\<bar>, r)"
    using assms by (intro number_zeroPad) simp_all
  show ?thesis
  proof (cases "y < 0")
    case True
    with n show ?thesis
      by (simp add: yearPart_def yearString_def)
  next
    case False
    with \<open>\<not> (0 \<le> y \<and> y \<le> 9999)\<close> n show ?thesis
      by (simp add: yearPart_def yearString_def)
  qed
qed

text \<open>The month and the date of a day of the year.\<close>

lemma month_table:
  assumes "0 \<le> dwy" "dwy < 365 + leap" "leap = 0 \<or> leap = 1"
  shows "0 \<le> MonthFromDay dwy leap \<and> MonthFromDay dwy leap \<le> 11 \<and>
         1 \<le> DateFromDay dwy leap \<and> DateFromDay dwy leap \<le> 31 \<and>
         monthStart (MonthFromDay dwy leap) leap + DateFromDay dwy leap - 1 = dwy"
proof -
  have m: "monthStart (MonthFromDay dwy leap) leap + DateFromDay dwy leap - 1 = dwy"
    by (simp add: DateFromDay_def)
  have r: "0 \<le> MonthFromDay dwy leap \<and> MonthFromDay dwy leap \<le> 11"
    by (simp add: MonthFromDay_def)
  from assms(3) have "1 \<le> DateFromDay dwy leap \<and> DateFromDay dwy leap \<le> 31"
  proof
    assume "leap = 0"
    with assms(1,2) show ?thesis
      by (simp add: MonthFromDay_def DateFromDay_def monthStart_def)
  next
    assume "leap = 1"
    with assms(1,2) show ?thesis
      by (simp add: MonthFromDay_def DateFromDay_def monthStart_def)
  qed
  with m r show ?thesis by simp
qed

lemma time_recomposed:
  "MakeDate (Day t)
     (MakeTime (HourFromTime t) (MinFromTime t) (SecFromTime t) (msFromTime t)) = t"
proof -
  define D H M S where "D = t div 86400000" and "H = t div 3600000" and "M = t div 60000"
    and "S = t div 1000"
  define hh mm ss ms where "hh = H mod 24" and "mm = M mod 60" and "ss = S mod 60"
    and "ms = t mod 1000"
  have "H div 24 = D" "M div 60 = H" "S div 60 = M"
    by (simp_all add: D_def H_def M_def S_def flip: zdiv_zmult2_eq)
  moreover have "H = 24 * (H div 24) + hh" "M = 60 * (M div 60) + mm"
    "S = 60 * (S div 60) + ss" "t = 1000 * S + ms"
    by (simp_all add: hh_def mm_def ss_def ms_def S_def)
  ultimately have e: "H = 24 * D + hh" "M = 60 * H + mm" "S = 60 * M + ss" "t = 1000 * S + ms"
    by simp_all
  have "MakeDate (Day t)
     (MakeTime (HourFromTime t) (MinFromTime t) (SecFromTime t) (msFromTime t))
     = D * 86400000 + (hh * 3600000 + mm * 60000 + ss * 1000 + ms)"
    by (simp add: MakeDate_def MakeTime_def Day_def msPerDay_def HourFromTime_def
        MinFromTime_def SecFromTime_def msFromTime_def D_def H_def M_def S_def
        hh_def mm_def ss_def ms_def)
  also from e have "\<dots> = t"
    by (simp add: algebra_simps)
  finally show ?thesis .
qed

lemma time_fields:
  "0 \<le> HourFromTime t \<and> HourFromTime t < 24 \<and> 0 \<le> MinFromTime t \<and> MinFromTime t < 60 \<and>
   0 \<le> SecFromTime t \<and> SecFromTime t < 60 \<and> 0 \<le> msFromTime t \<and> msFromTime t < 1000"
  by (simp add: HourFromTime_def MinFromTime_def SecFromTime_def msFromTime_def)

lemma Day_range:
  assumes "\<bar>t\<bar> \<le> 8640000000000000"
  shows "- 100000000 \<le> Day t \<and> Day t \<le> 100000000"
proof -
  have "86400000 * (t div 86400000) \<le> t" "t \<le> 86400000 * (t div 86400000) + 86399999"
    using div_mod_bounds [of 86400000 t] by simp_all
  with assms show ?thesis
    unfolding Day_def msPerDay_def by linarith
qed

lemma YearFromTime_range:
  assumes "\<bar>t\<bar> \<le> 8640000000000000"
  shows "\<bar>YearFromTime t\<bar> < 1000000"
proof -
  define Y where "Y = YearFromTime t"
  have b: "DayFromYear Y \<le> Day t" "Day t < DayFromYear (Y + 1)"
    using YearFromDay_bounds [of "Day t"] by (simp_all add: Y_def YearFromTime_def)
  define a c where "a = DayFromYear Y" and "c = DayFromYear (Y + 1)"
  from Day_range [OF assms] b DayFromYear_bounds(2) [of Y] DayFromYear_bounds(1) [of "Y + 1"]
  have "146097 * Y - 287811596 \<le> 400 * a" "a \<le> 100000000"
    "400 * c \<le> 146097 * Y - 287664404" "- 100000000 < c"
    by (simp_all add: a_def c_def)
  then have "146097 * Y \<le> 40287811596" "- 39712335596 < 146097 * Y"
    by simp_all
  then have "Y < 1000000" "- 1000000 < Y"
    by simp_all
  then have "\<bar>Y\<bar> < 1000000"
    by simp
  then show ?thesis
    by (simp add: Y_def)
qed

lemma DaysInYear_leap: "DaysInYear y = 365 + InLeapYear y"
  by (simp add: InLeapYear_def DaysInYear_def)

lemma InLeapYear_cases: "InLeapYear y = 0 \<or> InLeapYear y = 1"
  by (simp add: InLeapYear_def)

text \<open>The fields of a time value are in range and give its day back.\<close>

lemma MakeDay_of_time:
  "MakeDay (YearFromTime t) (MonthFromTime t + 1 - 1) (DateFromTime t) = Day t \<and>
   1 \<le> MonthFromTime t + 1 \<and> MonthFromTime t + 1 \<le> 12 \<and>
   1 \<le> DateFromTime t \<and> DateFromTime t \<le> 31"
proof -
  define Y where "Y = YearFromTime t"
  define dwy where "dwy = DayWithinYear t"
  have b: "DayFromYear Y \<le> Day t" "Day t < DayFromYear (Y + 1)"
    using YearFromDay_bounds [of "Day t"] by (simp_all add: Y_def YearFromTime_def)
  then have "0 \<le> dwy" "dwy < 365 + InLeapYear Y"
    by (simp_all add: dwy_def DayWithinYear_def Y_def [symmetric] DayFromYear_next
        DaysInYear_leap)
  from month_table [OF this InLeapYear_cases]
  have m: "0 \<le> MonthFromTime t" "MonthFromTime t \<le> 11"
    "1 \<le> DateFromTime t" "DateFromTime t \<le> 31"
    "monthStart (MonthFromTime t) (InLeapYear Y) + DateFromTime t - 1 = dwy"
    by (simp_all add: MonthFromTime_def DateFromTime_def Y_def dwy_def)
  from m(1,2) have "MonthFromTime t div 12 = 0" "MonthFromTime t mod 12 = MonthFromTime t"
    by simp_all
  then have "MakeDay Y (MonthFromTime t + 1 - 1) (DateFromTime t)
      = DayFromYear Y + (monthStart (MonthFromTime t) (InLeapYear Y) + DateFromTime t - 1)"
    by (simp add: MakeDay_def)
  also have "\<dots> = Day t"
    using m(5) by (simp add: dwy_def DayWithinYear_def Y_def)
  finally show ?thesis
    using m by (simp add: Y_def)
qed

text \<open>Parsing the ISO string of a time value gives the time value.\<close>

lemma Date_parse_toISOString:
  assumes "\<bar>t\<bar> \<le> 8640000000000000"
  shows "Date_parse (toISOString t) = TimeValue t"
proof -
  note y = yearPart_yearString [OF YearFromTime_range [OF assms]]
  from MakeDay_of_time [of t] have md:
    "MakeDay (YearFromTime t) (MonthFromTime t + 1 - 1) (DateFromTime t) = Day t"
    and r: "1 \<le> MonthFromTime t + 1" "MonthFromTime t + 1 \<le> 12"
      "1 \<le> DateFromTime t" "DateFromTime t \<le> 31"
    by simp_all
  from time_fields [of t] have f: "0 \<le> HourFromTime t" "HourFromTime t < 24"
    "0 \<le> MinFromTime t" "MinFromTime t < 60" "0 \<le> SecFromTime t" "SecFromTime t < 60"
    "0 \<le> msFromTime t" "msFromTime t < 1000"
    by simp_all
  have n: "number 2 (zeroPad 2 (MonthFromTime t + 1) @ r1) = Some (MonthFromTime t + 1, r1)"
    "number 2 (zeroPad 2 (DateFromTime t) @ r2) = Some (DateFromTime t, r2)"
    "number 2 (zeroPad 2 (HourFromTime t) @ r3) = Some (HourFromTime t, r3)"
    "number 2 (zeroPad 2 (MinFromTime t) @ r4) = Some (MinFromTime t, r4)"
    "number 2 (zeroPad 2 (SecFromTime t) @ r5) = Some (SecFromTime t, r5)"
    "number 3 (zeroPad 3 (msFromTime t) @ r6) = Some (msFromTime t, r6)"
    for r1 r2 r3 r4 r5 r6
    using r f by (intro number_zeroPad; simp)+
  have "parseISO (toISOString t) =
      Some (MakeDate (MakeDay (YearFromTime t) (MonthFromTime t + 1 - 1) (DateFromTime t))
        (MakeTime (HourFromTime t) (MinFromTime t) (SecFromTime t) (msFromTime t)))"
    using r f by (simp add: parseISO_def toISOString_def y n expect_Cons del: zeroPad.simps)
  then have "parseISO (toISOString t) = Some t"
    by (simp only: md time_recomposed)
  with assms show ?thesis
    by (simp add: Date_parse_def TimeClip_def)
qed

text \<open>A valid date comes back from its JSON form; an invalid one comes back as the epoch.\<close>

lemma new_Date_toJSON: "validDate d \<Longrightarrow> new_Date (Date_toJSON d) = d"
  by (cases d) (simp_all add: validDate_def new_Date_def Date_toJSON_def Date_parse_toISOString)

lemma new_Date_JSDate: "new_Date (JSDate d) = d"
  by (simp add: new_Date_def)

lemma new_Date_toJSON_invalid: "new_Date (Date_toJSON InvalidDate) = TimeValue 0"
  by (simp add: new_Date_def Date_toJSON_def)


section \<open>The operations of the manager, step by step\<close>

lemma findByEmail_None_iff:
  "findByEmail s e = None \<longleftrightarrow>
     \<not> (\<exists>r. r \<in> set (contacts s) \<and> toLowerCase (email (obj s r)) = toLowerCase e)"
  by (simp add: findByEmail_def find_None_iff)

lemma findByEmail_SomeD:
  "findByEmail s e = Some r \<Longrightarrow>
     r \<in> set (contacts s) \<and> toLowerCase (email (obj s r)) = toLowerCase e"
  by (auto simp add: findByEmail_def find_Some_iff)

lemma findById_SomeD:
  "findById s i = Some r \<Longrightarrow> r \<in> set (contacts s) \<and> id' (obj s r) = i"
  by (auto simp add: findById_def find_Some_iff)

lemma findIndex_None_iff: "findIndex P xs = None \<longleftrightarrow> (\<forall>x\<in>set xs. \<not> P x)"
  by (induction xs) auto

lemma saveContacts_eq:
  "saveContacts port s =
     (fst (save port (map (obj s) (contacts s)) (storage s)),
      s\<lparr> storage := snd (save port (map (obj s) (contacts s)) (storage s)) \<rparr>)"
  by (simp add: saveContacts_def case_prod_beta)

lemma saveContacts_frame:
  "heap (snd (saveContacts port s)) = heap s \<and>
   nextRef (snd (saveContacts port s)) = nextRef s \<and>
   contacts (snd (saveContacts port s)) = contacts s \<and>
   filteredContacts (snd (saveContacts port s)) = filteredContacts s"
  by (simp add: saveContacts_eq)

lemma currentView_cong:
  "heap s' = heap s \<Longrightarrow> contacts s' = contacts s \<Longrightarrow> currentView v s' = currentView v s"
  by (simp add: currentView_def obj_def split: option.splits)

lemma searchContacts_frame:
  "heap (snd (searchContacts q s)) = heap s \<and> nextRef (snd (searchContacts q s)) = nextRef s \<and>
   contacts (snd (searchContacts q s)) = contacts s \<and>
   storage (snd (searchContacts q s)) = storage s"
  by (simp add: searchContacts_def Let_def)

lemma searchContacts_view:
  "filteredContacts (snd (searchContacts q s)) = currentView (Some q) s"
  by (simp add: searchContacts_def currentView_def Let_def)

lemma searchContacts_result:
  "fst (searchContacts q s) = filteredContacts (snd (searchContacts q s))"
  by (simp add: searchContacts_def Let_def)

lemma applyCurrentFilter_frame:
  "heap (applyCurrentFilter v s) = heap s \<and> nextRef (applyCurrentFilter v s) = nextRef s \<and>
   contacts (applyCurrentFilter v s) = contacts s \<and>
   storage (applyCurrentFilter v s) = storage s"
  by (simp add: applyCurrentFilter_def searchContacts_frame split: option.splits)

lemma applyCurrentFilter_view:
  "filteredContacts (applyCurrentFilter v s) = currentView v s"
  by (simp add: applyCurrentFilter_def searchContacts_view split: option.splits)
     (simp_all add: currentView_def)

lemma applyCurrentFilter_view':
  "filteredContacts (applyCurrentFilter v s) = currentView v (applyCurrentFilter v s)"
proof -
  have "currentView v (applyCurrentFilter v s) = currentView v s"
    by (rule currentView_cong) (simp_all add: applyCurrentFilter_frame)
  then show ?thesis
    by (simp add: applyCurrentFilter_view)
qed


lemma LocalStorageManager_save_throws:
  "setItem_throws (map toJSON cs) \<Longrightarrow>
     save (LocalStorageManager setItem_throws) cs st = (Some PersistenceWriteFailure, st)"
  by (simp add: LocalStorageManager_def PersistenceWriteFailure_def)

lemma map_obj_fresh:
  assumes "r \<notin> set rs" and "heap s1 = (heap s)(r \<mapsto> c)"
  shows "map (obj s1) rs = map (obj s) rs"
  using assms by (auto simp add: obj_def)

lemma refs_allocated_fresh: "refs_allocated s \<Longrightarrow> nextRef s \<notin> set (contacts s)"
  by (auto simp add: refs_allocated_def list_all_iff)

text \<open>What a successful \<open>addContact\<close>, \<open>updateContact\<close> and \<open>deleteContact\<close> end with.\<close>

lemma addContact_Inr:
  assumes "addContact port v env d s = (Inr r, s')"
  shows "\<exists>s2. s' = applyCurrentFilter v s2 \<and> contacts s2 = contacts s @ [r]"
proof (cases "findByEmail s (email d)")
  case (Some r')
  with assms show ?thesis
    by (simp add: addContact_def)
next
  case None
  define s1 where "s1 = s\<lparr> heap := (heap s)(nextRef s \<mapsto>
      Contact_new env (firstName d) (lastName d) (email d) (phone d) (address d) None),
      nextRef := Suc (nextRef s), contacts := contacts s @ [nextRef s] \<rparr>"
  from None assms have *: "(case saveContacts port s1 of
        (Some e, s2) \<Rightarrow> (Inl e, s2)
      | (None, s2) \<Rightarrow> (Inr (nextRef s), applyCurrentFilter v s2)) = (Inr r, s')"
    by (simp add: addContact_def Let_def s1_def)
  then have "r = nextRef s \<and> s' = applyCurrentFilter v (snd (saveContacts port s1))"
    by (cases "fst (saveContacts port s1)") (auto simp add: case_prod_beta)
  moreover have "contacts (snd (saveContacts port s1)) = contacts s @ [nextRef s]"
    by (simp add: saveContacts_frame s1_def)
  ultimately show ?thesis
    by auto
qed

lemma updateContact_applied:
  assumes "findById s i = Some r" and "\<not> emailConflict s i r d"
  shows "updateContact port searchInput now i d s =
     (case saveContacts port (s\<lparr> heap := (heap s)(r \<mapsto> update now (obj s r) d) \<rparr>) of
        (Some e, s2) \<Rightarrow> (Inl e, s2)
      | (None, s2) \<Rightarrow> (Inr r, applyCurrentFilter searchInput s2))"
  using assms by (simp add: updateContact_def Let_def)

text \<open>The object is overwritten before \<open>save\<close> is called, and stays so when \<open>save\<close> throws.\<close>

lemma updateContact_applied_heap:
  assumes "findById s i = Some r" and "\<not> emailConflict s i r d"
  shows "heap (snd (updateContact port searchInput now i d s))
           = (heap s)(r \<mapsto> update now (obj s r) d) \<and>
         contacts (snd (updateContact port searchInput now i d s)) = contacts s \<and>
         nextRef (snd (updateContact port searchInput now i d s)) = nextRef s"
proof -
  let ?s1 = "s\<lparr> heap := (heap s)(r \<mapsto> update now (obj s r) d) \<rparr>"
  show ?thesis
  proof (cases "fst (saveContacts port ?s1)")
    case None
    then have "updateContact port searchInput now i d s =
        (Inr r, applyCurrentFilter searchInput (snd (saveContacts port ?s1)))"
      by (simp add: updateContact_applied [OF assms] case_prod_beta)
    then show ?thesis
      by (simp add: applyCurrentFilter_frame saveContacts_frame)
  next
    case (Some e)
    then have "updateContact port searchInput now i d s = (Inl e, snd (saveContacts port ?s1))"
      by (simp add: updateContact_applied [OF assms] case_prod_beta)
    then show ?thesis
      by (simp add: saveContacts_frame)
  qed
qed

lemma updateContact_Inr:
  assumes "updateContact port v now i u s = (Inr r, s')"
  shows "\<exists>s2. s' = applyCurrentFilter v s2"
proof (cases "findById s i")
  case None
  with assms show ?thesis
    by (simp add: updateContact_def)
next
  case (Some r0)
  show ?thesis
  proof (cases "emailConflict s i r0 u")
    case True
    with Some assms show ?thesis
      by (simp add: updateContact_def)
  next
    case False
    let ?s1 = "s\<lparr> heap := (heap s)(r0 \<mapsto> update now (obj s r0) u) \<rparr>"
    from assms have "(case saveContacts port ?s1 of
        (Some e, s2) \<Rightarrow> (Inl e, s2)
      | (None, s2) \<Rightarrow> (Inr r0, applyCurrentFilter v s2)) = (Inr r, s')"
      by (simp add: updateContact_applied [OF Some False])
    then have "s' = applyCurrentFilter v (snd (saveContacts port ?s1))"
      by (cases "fst (saveContacts port ?s1)") (auto simp add: case_prod_beta)
    then show ?thesis
      by blast
  qed
qed

lemma deleteContact_Inr_True:
  assumes "deleteContact port v i s = (Inr True, s')"
  shows "\<exists>s2. s' = applyCurrentFilter v s2"
proof (cases "findIndex (\<lambda>r. id' (obj s r) = i) (contacts s)")
  case None
  with assms show ?thesis
    by (simp add: deleteContact_def)
next
  case (Some index)
  let ?s1 = "s\<lparr> contacts := splice1 index (contacts s) \<rparr>"
  from Some assms have "(case saveContacts port ?s1 of
        (Some e, s2) \<Rightarrow> (Inl e, s2)
      | (None, s2) \<Rightarrow> (Inr True, applyCurrentFilter v s2)) = (Inr True, s')"
    by (simp add: deleteContact_def Let_def)
  then have "s' = applyCurrentFilter v (snd (saveContacts port ?s1))"
    by (cases "fst (saveContacts port ?s1)") (auto simp add: case_prod_beta)
  then show ?thesis
    by blast
qed

lemma last_in_currentView:
  "r \<in> set (currentView v (s\<lparr> contacts := cs @ [r] \<rparr>)) \<longleftrightarrow>
     (case v of None \<Rightarrow> True
      | Some q \<Rightarrow> trim q = [] \<or> matches (trim (toLowerCase q)) (obj s r))"
  by (simp add: currentView_def obj_def split: option.splits)


section \<open>Serialising a contact\<close>

text \<open>Every contact that the class builds has a non-empty id, and an update keeps it.\<close>

lemma Contact_new_id_nonempty: "id' (Contact_new env fn ln em ph ad ido) \<noteq> []"
  by (simp add: Contact_new_def generateId_nonempty split: option.splits)

lemma update_keeps_id: "id' (update now c d) = id' c"
  by (simp add: update_def assign_def)

lemma fromJSON_id_nonempty: "id' (fromJSON env data) \<noteq> []"
  by (simp add: fromJSON_def Contact_new_id_nonempty)

text \<open>The constructor and \<open>update\<close> stamp a contact with valid dates when the clock is in range.\<close>

lemma Contact_new_validDate:
  "\<bar>now_created env\<bar> \<le> 8640000000000000 \<Longrightarrow> \<bar>now_updated env\<bar> \<le> 8640000000000000 \<Longrightarrow>
     validDate (createdAt (Contact_new env fn ln em ph ad ido)) \<and>
     validDate (updatedAt (Contact_new env fn ln em ph ad ido))"
  by (simp add: Contact_new_def validDate_def)

lemma fromJSON_toJSON_any:
  assumes "id' r \<noteq> []" and "validDate (createdAt r)" and "validDate (updatedAt r)"
  shows "fromJSON env (JSON_parse_stringify (toJSON r)) = r"
  using assms
  by (simp add: fromJSON_def toJSON_def JSON_parse_stringify_def Contact_new_def
      new_Date_toJSON)

text \<open>
  Not every contact survives the store. An entry of the store without \<open>createdAt\<close> loads
  as a contact whose \<open>createdAt\<close> is an invalid date; \<open>JSON.stringify\<close> writes it as
  \<open>null\<close>, and it comes back as the epoch. A contact whose id is the empty string comes
  back with a generated id.
\<close>

theorem fromJSON_toJSON_counterexample:
  "createdAt broken = InvalidDate \<and> id' broken = ''a1'' \<and>
   createdAt (fromJSON env2 (JSON_parse_stringify (toJSON broken))) = TimeValue 0 \<and>
   id' anonymous = [] \<and>
   id' (fromJSON env2 (JSON_parse_stringify (toJSON anonymous))) = id2 \<and>
   id' (fromJSON env2 (as_data (toJSON anonymous))) = id2"
  by code_simp

text \<open>
  C6, amended. For a contact \<open>r\<close> whose id is not empty (as the id of every contact that
  the constructor built) and whose \<open>createdAt\<close> and \<open>updatedAt\<close> are valid dates,
  \<open>fromJSON\<close> of what \<open>JSON.parse\<close> reads back from the \<open>JSON.stringify\<close> of \<open>toJSON r\<close> is \<open>r\<close>
  in every field: id, firstName, lastName, email, phone, address, and createdAt and
  updatedAt with the same time values, whatever the clock and the random source are
  when \<open>fromJSON\<close> runs. The same holds when \<open>toJSON r\<close> is passed to \<open>fromJSON\<close> as it is.
\<close>

theorem fromJSON_toJSON:
  assumes "id' r \<noteq> []" and "validDate (createdAt r)" and "validDate (updatedAt r)"
  shows "fromJSON env (JSON_parse_stringify (toJSON r)) = r \<and>
         fromJSON env (as_data (toJSON r)) = r"
  using assms
  by (simp add: fromJSON_def toJSON_def JSON_parse_stringify_def as_data_def
      Contact_new_def new_Date_toJSON new_Date_JSDate)

theorem fromJSON_toJSON_witness:
  "id' ada_contact \<noteq> [] \<and> validDate (createdAt ada_contact) \<and>
   validDate (updatedAt ada_contact) \<and>
   createdAt (JSON_parse_stringify (toJSON ada_contact)) = JSString ''2023-11-14T22:13:20.000Z'' \<and>
   fromJSON env2 (JSON_parse_stringify (toJSON ada_contact)) = ada_contact \<and>
   fromJSON env2 (as_data (toJSON ada_contact)) = ada_contact"
proof -
  have h: "id' ada_contact \<noteq> []" "validDate (createdAt ada_contact)"
    "validDate (updatedAt ada_contact)"
    "createdAt (JSON_parse_stringify (toJSON ada_contact)) = JSString ''2023-11-14T22:13:20.000Z''"
    by code_simp+
  from fromJSON_toJSON [OF h(1,2,3), of env2] h show ?thesis
    by simp
qed

text \<open>What \<open>save\<close> wrote, \<open>load\<close> reads back, for such contacts.\<close>

lemma map_fromJSON_enumerate:
  assumes "\<forall>c\<in>set cs. id' c \<noteq> [] \<and> validDate (createdAt c) \<and> validDate (updatedAt c)"
  shows "map (\<lambda>(k, contactData). fromJSON (envs k) contactData)
           (enumerate n (map (JSON_parse_stringify \<circ> toJSON) cs)) = cs"
  using assms
proof (induction cs arbitrary: n)
  case Nil
  then show ?case by simp
next
  case (Cons c cs)
  then have "fromJSON (envs n) (JSON_parse_stringify (toJSON c)) = c"
    using fromJSON_toJSON_any [of c "envs n"] by simp
  with Cons show ?case by simp
qed

lemma LocalStorageManager_load_save:
  assumes "\<not> setItem_throws (map toJSON cs)"
    and "\<forall>c\<in>set cs. id' c \<noteq> [] \<and> validDate (createdAt c) \<and> validDate (updatedAt c)"
  shows "LocalStorageManager_load envs (snd (save (LocalStorageManager setItem_throws) cs st)) = cs"
  using assms
  by (simp add: LocalStorageManager_def LocalStorageManager_load_def map_fromJSON_enumerate)


section \<open>Adding a contact\<close>

text \<open>
  C4. When a contact of the collection has the new email up to case (\<open>ada@x.com\<close> against
  \<open>ADA@X.COM\<close>), \<open>addContact\<close> throws 'A contact with this email already exists' and
  leaves the manager as it was: the collection, the filtered view, the objects and the
  store of the port, whatever the port is. A port that counts its calls has the same
  count after the call, so \<open>save\<close> was not called.
\<close>

theorem addContact_duplicate_email:
  assumes "r \<in> set (contacts s)"
    and "toLowerCase (email (obj s r)) = toLowerCase (email contactData)"
  shows "addContact port searchInput env contactData s = (Inl DuplicateEmail, s)"
proof -
  from assms have "findByEmail s (email contactData) \<noteq> None"
    by (auto simp add: findByEmail_None_iff)
  then obtain r' where "findByEmail s (email contactData) = Some r'"
    by auto
  then show ?thesis
    by (simp add: addContact_def DuplicateEmail_def)
qed

theorem addContact_duplicate_email_witness:
  "0 \<in> set (contacts dir1) \<and>
   toLowerCase (email (obj dir1 0)) = toLowerCase (email al) \<and>
   email (obj dir1 0) = ''ada@x.com'' \<and> email al = ''ADA@X.COM'' \<and>
   addContact countingStorage None env2 al dir1 = (Inl DuplicateEmail, dir1) \<and>
   storage dir1 = 1 \<and> getContactCount dir1 = 1"
proof -
  have h1: "0 \<in> set (contacts dir1)"
    by code_simp
  have h2: "toLowerCase (email (obj dir1 0)) = toLowerCase (email al)"
    by code_simp
  have h3: "email (obj dir1 0) = ''ada@x.com''" "email al = ''ADA@X.COM''"
    "storage dir1 = 1" "getContactCount dir1 = 1"
    by code_simp+
  from addContact_duplicate_email [OF h1 h2] h1 h2 h3 show ?thesis
    by blast
qed

text \<open>
  C7. When the change in memory was made and \<open>save\<close> throws \<open>e\<close> on the changed
  collection, the operation throws \<open>e\<close> and the change stays: after \<open>addContact\<close> the
  collection keeps the new contact at its end, after \<open>updateContact\<close> the object keeps
  the written fields, after \<open>deleteContact\<close> the entry is gone. Nothing is rolled back,
  and the filtered view is not recomputed. The error of a \<open>LocalStorageManager\<close> whose
  \<open>setItem\<close> throws is 'Failed to save contacts'.
\<close>

theorem save_failure_keeps_change:
  "(findByEmail s (email d) = None \<and> refs_allocated s \<and>
    fst (save port (getAllContacts s @ [contactOf env d]) (storage s)) = Some e
    \<longrightarrow> fst (addContact port v env d s) = Inl e \<and>
        contacts (snd (addContact port v env d s)) = contacts s @ [nextRef s] \<and>
        getAllContacts (snd (addContact port v env d s)) = getAllContacts s @ [contactOf env d] \<and>
        filteredContacts (snd (addContact port v env d s)) = filteredContacts s) \<and>
   (findById s i = Some r \<and> \<not> emailConflict s i r u \<and>
    fst (save port (getAllContacts (updated s r now u)) (storage s)) = Some e
    \<longrightarrow> fst (updateContact port v now i u s) = Inl e \<and>
        heap (snd (updateContact port v now i u s)) = (heap s)(r \<mapsto> update now (obj s r) u) \<and>
        contacts (snd (updateContact port v now i u s)) = contacts s \<and>
        getAllContacts (snd (updateContact port v now i u s))
          = getAllContacts (updated s r now u) \<and>
        filteredContacts (snd (updateContact port v now i u s)) = filteredContacts s) \<and>
   (findIndex (\<lambda>r. id' (obj s r) = i) (contacts s) = Some index \<and>
    fst (save port (getAllContacts (removed s index)) (storage s)) = Some e
    \<longrightarrow> fst (deleteContact port v i s) = Inl e \<and>
        contacts (snd (deleteContact port v i s)) = splice1 index (contacts s) \<and>
        heap (snd (deleteContact port v i s)) = heap s \<and>
        filteredContacts (snd (deleteContact port v i s)) = filteredContacts s) \<and>
   (\<forall>setItem_throws cs st. setItem_throws (map toJSON cs) \<longrightarrow>
      fst (save (LocalStorageManager setItem_throws) cs st) = Some PersistenceWriteFailure)"
proof (intro conjI impI allI)
  assume a: "findByEmail s (email d) = None \<and> refs_allocated s \<and>
    fst (save port (getAllContacts s @ [contactOf env d]) (storage s)) = Some e"
  define c where "c = contactOf env d"
  define s1 where "s1 = s\<lparr> heap := (heap s)(nextRef s \<mapsto> c), nextRef := Suc (nextRef s),
      contacts := contacts s @ [nextRef s] \<rparr>"
  have fresh: "nextRef s \<notin> set (contacts s)"
    using a by (simp add: refs_allocated_fresh)
  have "map (obj s1) (contacts s) = map (obj s) (contacts s)"
    using fresh by (rule map_obj_fresh) (simp add: s1_def)
  then have all1: "map (obj s1) (contacts s1) = getAllContacts s @ [c]"
    by (simp add: s1_def getAllContacts_def obj_def)
  have st1: "storage s1 = storage s"
    by (simp add: s1_def)
  have sv: "saveContacts port s1 =
      (Some e, s1\<lparr> storage := snd (save port (getAllContacts s @ [c]) (storage s)) \<rparr>)"
    using a by (simp add: saveContacts_eq all1 st1 c_def)
  have res: "addContact port v env d s =
      (Inl e, s1\<lparr> storage := snd (save port (getAllContacts s @ [c]) (storage s)) \<rparr>)"
    using a sv by (simp add: addContact_def Let_def c_def contactOf_def s1_def)
  show "fst (addContact port v env d s) = Inl e"
    by (simp add: res)
  show "contacts (snd (addContact port v env d s)) = contacts s @ [nextRef s]"
    by (simp add: res s1_def)
  have "getAllContacts (snd (addContact port v env d s)) = map (obj s1) (contacts s1)"
    by (simp add: res getAllContacts_def obj_def)
  with all1 show "getAllContacts (snd (addContact port v env d s))
      = getAllContacts s @ [contactOf env d]"
    by (simp add: c_def)
  show "filteredContacts (snd (addContact port v env d s)) = filteredContacts s"
    by (simp add: res s1_def)
next
  assume a: "findById s i = Some r \<and> \<not> emailConflict s i r u \<and>
    fst (save port (getAllContacts (updated s r now u)) (storage s)) = Some e"
  define s1 where "s1 = updated s r now u"
  have s1: "s1 = s\<lparr> heap := (heap s)(r \<mapsto> update now (obj s r) u) \<rparr>"
    by (simp add: s1_def updated_def)
  have sv: "saveContacts port s1 =
      (Some e, s1\<lparr> storage := snd (save port (getAllContacts s1) (storage s)) \<rparr>)"
    using a by (simp add: saveContacts_eq getAllContacts_def s1_def updated_def)
  have res: "updateContact port v now i u s =
      (Inl e, s1\<lparr> storage := snd (save port (getAllContacts s1) (storage s)) \<rparr>)"
    using a sv by (simp add: updateContact_applied s1 [symmetric])
  show "fst (updateContact port v now i u s) = Inl e"
    by (simp add: res)
  show "heap (snd (updateContact port v now i u s)) = (heap s)(r \<mapsto> update now (obj s r) u)"
    by (simp add: res s1)
  show "contacts (snd (updateContact port v now i u s)) = contacts s"
    by (simp add: res s1)
  show "getAllContacts (snd (updateContact port v now i u s)) = getAllContacts (updated s r now u)"
    by (simp add: res getAllContacts_def obj_def s1_def)
  show "filteredContacts (snd (updateContact port v now i u s)) = filteredContacts s"
    by (simp add: res s1)
next
  assume a: "findIndex (\<lambda>r. id' (obj s r) = i) (contacts s) = Some index \<and>
    fst (save port (getAllContacts (removed s index)) (storage s)) = Some e"
  define s1 where "s1 = removed s index"
  have s1: "s1 = s\<lparr> contacts := splice1 index (contacts s) \<rparr>"
    by (simp add: s1_def removed_def)
  have sv: "saveContacts port s1 =
      (Some e, s1\<lparr> storage := snd (save port (getAllContacts s1) (storage s)) \<rparr>)"
    using a by (simp add: saveContacts_eq getAllContacts_def s1_def removed_def)
  have res: "deleteContact port v i s =
      (Inl e, s1\<lparr> storage := snd (save port (getAllContacts s1) (storage s)) \<rparr>)"
    using a sv by (simp add: deleteContact_def Let_def s1 [symmetric])
  show "fst (deleteContact port v i s) = Inl e"
    by (simp add: res)
  show "contacts (snd (deleteContact port v i s)) = splice1 index (contacts s)"
    by (simp add: res s1)
  show "heap (snd (deleteContact port v i s)) = heap s"
    by (simp add: res s1)
  show "filteredContacts (snd (deleteContact port v i s)) = filteredContacts s"
    by (simp add: res s1)
next
  fix setItem_throws :: "IContact list \<Rightarrow> bool" and cs and st :: "JSValue IContact_of list option"
  assume "setItem_throws (map toJSON cs)"
  then show "fst (save (LocalStorageManager setItem_throws) cs st) = Some PersistenceWriteFailure"
    by (simp add: LocalStorageManager_save_throws)
qed

theorem save_failure_keeps_change_witness:
  "findByEmail loaded_dir (email alan) = None \<and>
   refs_allocated loaded_dir \<and>
   fst (save fullStorage (getAllContacts loaded_dir @ [contactOf env2 alan]) (storage loaded_dir))
     = Some PersistenceWriteFailure \<and>
   fst (addContact fullStorage None env2 alan loaded_dir) = Inl PersistenceWriteFailure \<and>
   getContactCount loaded_dir = 1 \<and>
   contacts (snd (addContact fullStorage None env2 alan loaded_dir)) = [0, 1] \<and>
   getAllContacts (snd (addContact fullStorage None env2 alan loaded_dir))
     = getAllContacts loaded_dir @ [contactOf env2 alan] \<and>
   findById loaded_dir id1 = Some 0 \<and> \<not> emailConflict loaded_dir id1 0 rename \<and>
   fst (save fullStorage (getAllContacts (updated loaded_dir 0 1700000009000 rename))
     (storage loaded_dir)) = Some PersistenceWriteFailure \<and>
   fst (updateContact fullStorage None 1700000009000 id1 rename loaded_dir)
     = Inl PersistenceWriteFailure \<and>
   firstName (obj (snd (updateContact fullStorage None 1700000009000 id1 rename loaded_dir)) 0)
     = ''Alan M.'' \<and>
   findIndex (\<lambda>r. id' (obj loaded_dir r) = id1) (contacts loaded_dir) = Some 0 \<and>
   fst (save fullStorage (getAllContacts (removed loaded_dir 0)) (storage loaded_dir))
     = Some PersistenceWriteFailure \<and>
   fst (deleteContact fullStorage None id1 loaded_dir) = Inl PersistenceWriteFailure \<and>
   contacts (snd (deleteContact fullStorage None id1 loaded_dir)) = []"
proof -
  have a: "findByEmail loaded_dir (email alan) = None" "refs_allocated loaded_dir"
    "fst (save fullStorage (getAllContacts loaded_dir @ [contactOf env2 alan])
       (storage loaded_dir)) = Some PersistenceWriteFailure"
    by code_simp+
  have u: "findById loaded_dir id1 = Some 0" "\<not> emailConflict loaded_dir id1 0 rename"
    "fst (save fullStorage (getAllContacts (updated loaded_dir 0 1700000009000 rename))
       (storage loaded_dir)) = Some PersistenceWriteFailure"
    by code_simp+
  have d: "findIndex (\<lambda>r. id' (obj loaded_dir r) = id1) (contacts loaded_dir) = Some 0"
    "fst (save fullStorage (getAllContacts (removed loaded_dir 0)) (storage loaded_dir))
       = Some PersistenceWriteFailure"
    by code_simp+
  have v: "contacts loaded_dir = [0]" "nextRef loaded_dir = 1" "getContactCount loaded_dir = 1"
    "firstName (update 1700000009000 (obj loaded_dir 0) rename) = ''Alan M.''"
    by code_simp+
  note t = save_failure_keeps_change [where port = fullStorage and s = loaded_dir
      and e = PersistenceWriteFailure and v = None and env = env2 and d = alan
      and i = id1 and r = 0 and u = rename and now = 1700000009000 and index = 0]
  from t a have 1: "fst (addContact fullStorage None env2 alan loaded_dir)
      = Inl PersistenceWriteFailure"
    "contacts (snd (addContact fullStorage None env2 alan loaded_dir))
      = contacts loaded_dir @ [nextRef loaded_dir]"
    "getAllContacts (snd (addContact fullStorage None env2 alan loaded_dir))
      = getAllContacts loaded_dir @ [contactOf env2 alan]"
    by simp_all
  from t u have 2: "fst (updateContact fullStorage None 1700000009000 id1 rename loaded_dir)
      = Inl PersistenceWriteFailure"
    "heap (snd (updateContact fullStorage None 1700000009000 id1 rename loaded_dir))
      = (heap loaded_dir)(0 \<mapsto> update 1700000009000 (obj loaded_dir 0) rename)"
    by simp_all
  from t d have 3: "fst (deleteContact fullStorage None id1 loaded_dir)
      = Inl PersistenceWriteFailure"
    "contacts (snd (deleteContact fullStorage None id1 loaded_dir))
      = splice1 0 (contacts loaded_dir)"
    by simp_all
  from a u d v 1 2 3 show ?thesis
    by (simp add: obj_def splice1_def)
qed


section \<open>Updating a contact\<close>

lemma no_conflict_without_other_holder:
  assumes "upd_email d = Some e"
    and "\<forall>r'\<in>set (contacts s).
           toLowerCase (email (obj s r')) = toLowerCase e \<longrightarrow> id' (obj s r') = i"
  shows "\<not> emailConflict s i r d"
proof (cases "findByEmail s e")
  case None
  with assms(1) show ?thesis
    by (simp add: emailConflict_def)
next
  case (Some r')
  then have "r' \<in> set (contacts s)" "toLowerCase (email (obj s r')) = toLowerCase e"
    by (simp_all add: findByEmail_SomeD)
  with assms(2) have "id' (obj s r') = i"
    by blast
  with assms(1) Some show ?thesis
    by (simp add: emailConflict_def)
qed

lemma email_unique_same_ref:
  assumes "email_unique s" "r \<in> set (contacts s)" "r' \<in> set (contacts s)"
    and "toLowerCase (email (obj s r')) = toLowerCase (email (obj s r))"
  shows "r' = r"
proof -
  from assms(1) have "inj_on (\<lambda>r. toLowerCase (email (obj s r))) (set (contacts s))"
    by (simp add: email_unique_def distinct_map)
  with assms(2-4) show ?thesis
    by (auto dest: inj_onD)
qed

text \<open>
  The case variant of one's own email is not always accepted. In a directory loaded
  with the emails \<open>ada@x.com\<close> and \<open>ADA@x.com\<close>, updating the second contact to
  \<open>Ada@X.Com\<close> finds the first contact and throws the duplicate error. And when \<open>save\<close>
  throws, the call throws that error.
\<close>

theorem updateContact_case_variant_counterexample:
  "findById twins id2 = Some 1 \<and>
   upd_email caseVariant = Some ''Ada@X.Com'' \<and>
   toLowerCase ''Ada@X.Com'' = toLowerCase (email (obj twins 1)) \<and>
   ''Ada@X.Com'' \<noteq> email (obj twins 1) \<and>
   fst (updateContact countingStorage None 1700000009000 id2 caseVariant twins)
     = Inl DuplicateEmail \<and>
   findById loaded_dir id1 = Some 0 \<and>
   toLowerCase ''Ada@X.Com'' = toLowerCase (email (obj loaded_dir 0)) \<and>
   ''Ada@X.Com'' \<noteq> email (obj loaded_dir 0) \<and>
   fst (updateContact fullStorage None 1700000009000 id1 caseVariant loaded_dir)
     = Inl PersistenceWriteFailure"
  by code_simp

text \<open>
  C5, amended. When \<open>findById\<close> finds the contact \<open>r\<close> of id \<open>i\<close>, the partial carries an
  email \<open>e\<close> that equals the email of \<open>r\<close> up to case but not character for character,
  and no contact with another id holds \<open>e\<close> up to case (as in every directory whose
  emails are unique up to case), the uniqueness check passes and the email of \<open>r\<close>
  becomes \<open>e\<close>. The call returns \<open>r\<close> when \<open>save\<close> succeeds, and throws the error of \<open>save\<close>
  otherwise.
\<close>

theorem updateContact_own_email_case_variant:
  assumes found: "findById s i = Some r"
    and e: "upd_email d = Some e"
    and variant: "toLowerCase e = toLowerCase (email (obj s r))"
    and differs: "e \<noteq> email (obj s r)"
    and alone: "\<forall>r'\<in>set (contacts s).
           toLowerCase (email (obj s r')) = toLowerCase e \<longrightarrow> id' (obj s r') = i"
  shows "\<not> emailConflict s i r d \<and>
         email (obj (snd (updateContact port searchInput now i d s)) r) = e \<and>
         fst (updateContact port searchInput now i d s) =
           (case fst (save port (getAllContacts (updated s r now d)) (storage s)) of
              None \<Rightarrow> Inr r
            | Some err \<Rightarrow> Inl err)"
proof -
  from e alone have nc: "\<not> emailConflict s i r d"
    by (rule no_conflict_without_other_holder)
  have sv: "fst (saveContacts port (s\<lparr> heap := (heap s)(r \<mapsto> update now (obj s r) d) \<rparr>))
      = fst (save port (getAllContacts (updated s r now d)) (storage s))"
    by (simp add: saveContacts_eq getAllContacts_def updated_def)
  have "fst (updateContact port searchInput now i d s) =
      (case fst (save port (getAllContacts (updated s r now d)) (storage s)) of
         None \<Rightarrow> Inr r
       | Some err \<Rightarrow> Inl err)"
    unfolding sv [symmetric]
    by (cases "fst (saveContacts port (s\<lparr> heap := (heap s)(r \<mapsto> update now (obj s r) d) \<rparr>))")
       (simp_all add: updateContact_applied [OF found nc] case_prod_beta)
  moreover have "email (obj (snd (updateContact port searchInput now i d s)) r) = e"
    using e by (simp add: updateContact_applied_heap [OF found nc] obj_def update_def assign_def)
  ultimately show ?thesis
    using nc by simp
qed

theorem updateContact_own_email_case_variant_witness:
  "\<not> email_unique dir5 \<and>
   findById dir5 id3 = Some 2 \<and>
   upd_email carlVariant = Some ''CARL@x.com'' \<and>
   toLowerCase ''CARL@x.com'' = toLowerCase (email (obj dir5 2)) \<and>
   ''CARL@x.com'' \<noteq> email (obj dir5 2) \<and>
   list_all (\<lambda>r'. toLowerCase (email (obj dir5 r')) \<noteq> toLowerCase ''CARL@x.com'' \<or> r' = 2)
     (contacts dir5) \<and>
   fst (updateContact countingStorage None 1700000011000 id3 carlVariant dir5) = Inr 2 \<and>
   email (obj (snd (updateContact countingStorage None 1700000011000 id3 carlVariant dir5)) 2)
     = ''CARL@x.com''"
proof -
  have h0: "\<not> email_unique dir5"
    by code_simp
  have h1: "findById dir5 id3 = Some 2"
    by code_simp
  have h2: "upd_email carlVariant = Some ''CARL@x.com''"
    by code_simp
  have h3: "toLowerCase ''CARL@x.com'' = toLowerCase (email (obj dir5 2))"
    by code_simp
  have h4: "''CARL@x.com'' \<noteq> email (obj dir5 2)"
    by code_simp
  have h5: "list_all (\<lambda>r'. toLowerCase (email (obj dir5 r')) \<noteq> toLowerCase ''CARL@x.com'' \<or> r' = 2)
     (contacts dir5)"
    by code_simp
  have h6: "id' (obj dir5 2) = id3"
    by code_simp
  from h5 h6 have alone: "\<forall>r'\<in>set (contacts dir5).
      toLowerCase (email (obj dir5 r')) = toLowerCase ''CARL@x.com'' \<longrightarrow> id' (obj dir5 r') = id3"
    by (auto simp add: list_all_iff)
  have sv: "fst (save countingStorage cs st) = None" for cs st
    by (simp add: countingStorage_def)
  from updateContact_own_email_case_variant [OF h1 h2 h3 h4 alone,
      of countingStorage None 1700000011000] h0 h1 h2 h3 h4 h5
  show ?thesis
    by (simp add: sv)
qed

text \<open>
  C8. When \<open>findById\<close> finds the contact \<open>r\<close> and the uniqueness check passes,
  \<open>updateContact\<close> writes into the object of \<open>r\<close>: each field that the partial carries gets
  the value of the partial, each field that it does not carry keeps its value,
  \<open>updatedAt\<close> is the time of the call, and \<open>id\<close> and \<open>createdAt\<close> keep their values. The
  collection holds the same references in the same order, no object is allocated and no
  other object changes. The call returns \<open>r\<close>, or throws what \<open>save\<close> threw.
\<close>

theorem updateContact_frame:
  assumes found: "findById s i = Some r"
    and nc: "\<not> emailConflict s i r d"
    and s': "s' = snd (updateContact port searchInput now i d s)"
  shows "contacts s' = contacts s \<and> nextRef s' = nextRef s \<and>
         (\<forall>r'. r' \<noteq> r \<longrightarrow> heap s' r' = heap s r') \<and>
         id' (obj s' r) = id' (obj s r) \<and>
         createdAt (obj s' r) = createdAt (obj s r) \<and>
         updatedAt (obj s' r) = TimeValue now \<and>
         firstName (obj s' r) = (case upd_firstName d of None \<Rightarrow> firstName (obj s r) | Some v \<Rightarrow> v) \<and>
         lastName (obj s' r) = (case upd_lastName d of None \<Rightarrow> lastName (obj s r) | Some v \<Rightarrow> v) \<and>
         email (obj s' r) = (case upd_email d of None \<Rightarrow> email (obj s r) | Some v \<Rightarrow> v) \<and>
         phone (obj s' r) = (case upd_phone d of None \<Rightarrow> phone (obj s r) | Some v \<Rightarrow> v) \<and>
         address (obj s' r) = (case upd_address d of None \<Rightarrow> address (obj s r) | Some v \<Rightarrow> v) \<and>
         (fst (updateContact port searchInput now i d s) = Inr r \<or>
          (\<exists>e. fst (updateContact port searchInput now i d s) = Inl e \<and>
               fst (saveContacts port (s\<lparr> heap := (heap s)(r \<mapsto> update now (obj s r) d) \<rparr>))
                 = Some e))"
proof -
  have h: "heap s' = (heap s)(r \<mapsto> update now (obj s r) d)"
    "contacts s' = contacts s" "nextRef s' = nextRef s"
    by (simp_all add: s' updateContact_applied_heap [OF found nc])
  then have o: "obj s' r = update now (obj s r) d"
    by (simp add: obj_def)
  have res: "fst (updateContact port searchInput now i d s) = Inr r \<or>
          (\<exists>e. fst (updateContact port searchInput now i d s) = Inl e \<and>
               fst (saveContacts port (s\<lparr> heap := (heap s)(r \<mapsto> update now (obj s r) d) \<rparr>))
                 = Some e)"
    by (cases "fst (saveContacts port (s\<lparr> heap := (heap s)(r \<mapsto> update now (obj s r) d) \<rparr>))")
       (simp_all add: updateContact_applied [OF found nc] case_prod_beta)
  from h o res show ?thesis
    by (simp add: update_def assign_def)
qed

theorem updateContact_frame_witness:
  "findById dir2 id2 = Some 1 \<and> \<not> emailConflict dir2 id2 1 rename \<and>
   contacts (snd (updateContact countingStorage None 1700000009000 id2 rename dir2)) = [0, 1] \<and>
   id' (obj (snd (updateContact countingStorage None 1700000009000 id2 rename dir2)) 1) = id2 \<and>
   createdAt (obj (snd (updateContact countingStorage None 1700000009000 id2 rename dir2)) 1)
     = TimeValue 1700000005000 \<and>
   updatedAt (obj (snd (updateContact countingStorage None 1700000009000 id2 rename dir2)) 1)
     = TimeValue 1700000009000 \<and>
   firstName (obj (snd (updateContact countingStorage None 1700000009000 id2 rename dir2)) 1)
     = ''Alan M.'' \<and>
   lastName (obj (snd (updateContact countingStorage None 1700000009000 id2 rename dir2)) 1)
     = ''Turing'' \<and>
   phone (obj (snd (updateContact countingStorage None 1700000009000 id2 rename dir2)) 1) = None"
proof -
  have h1: "findById dir2 id2 = Some 1"
    by code_simp
  have h2: "\<not> emailConflict dir2 id2 1 rename"
    by code_simp
  have h3: "contacts dir2 = [0, 1]" "id' (obj dir2 1) = id2"
    "createdAt (obj dir2 1) = TimeValue 1700000005000"
    "lastName (obj dir2 1) = ''Turing''"
    by code_simp+
  from updateContact_frame [OF h1 h2 refl, of countingStorage None 1700000009000] h1 h2 h3
  show ?thesis
    by (simp add: rename_def)
qed


section \<open>Deleting a contact\<close>

text \<open>
  C9. When no contact of the collection has the id, \<open>deleteContact\<close> returns \<open>false\<close>,
  throws nothing and leaves the manager as it was: the collection and the filtered
  view are unchanged.
\<close>

theorem deleteContact_unknown_id:
  assumes "\<forall>r\<in>set (contacts s). id' (obj s r) \<noteq> i"
  shows "deleteContact port searchInput i s = (Inr False, s)"
proof -
  from assms have "findIndex (\<lambda>r. id' (obj s r) = i) (contacts s) = None"
    by (simp add: findIndex_None_iff)
  then show ?thesis
    by (simp add: deleteContact_def)
qed

theorem deleteContact_unknown_id_witness:
  "list_all (\<lambda>r. id' (obj dir2 r) \<noteq> ''nobody'') (contacts dir2) \<and>
   contacts dir2 = [0, 1] \<and>
   deleteContact countingStorage (Some ''ada'') ''nobody'' dir2 = (Inr False, dir2)"
proof -
  have h: "list_all (\<lambda>r. id' (obj dir2 r) \<noteq> ''nobody'') (contacts dir2)"
    by code_simp
  have c: "contacts dir2 = [0, 1]"
    by code_simp
  from h have "\<forall>r\<in>set (contacts dir2). id' (obj dir2 r) \<noteq> ''nobody''"
    by (simp add: list_all_iff)
  from deleteContact_unknown_id [OF this] h c show ?thesis
    by blast
qed


section \<open>Searching\<close>

lemma trim_toLowerCase_trim: "trim (toLowerCase (trim q)) = trim (toLowerCase q)"
  by (simp add: toLowerCase_trim trim_idem)

text \<open>
  C10. A search for a query and a search for the query without its leading and trailing
  white space return the same contacts and leave the same manager, filtered view
  included.
\<close>

theorem searchContacts_trim: "searchContacts (trim q) s = searchContacts q s"
  by (simp add: searchContacts_def trim_idem trim_toLowerCase_trim)

lemma matches_spec_matches: "matches (trim (toLowerCase q)) c = spec_matches (trim q) c"
  by (simp add: matches_def spec_matches_def containsCI_def toLowerCase_trim)

text \<open>
  The search term is the trimmed query, not the query: the search for ' ada ' in the
  directory of Ada and Alan finds Ada, and no field of Ada contains ' ada ' with its
  two spaces, in any case.
\<close>

theorem searchContacts_padded_query_counterexample:
  "trim '' ada '' \<noteq> [] \<and>
   filteredContacts (snd (searchContacts '' ada '' dir2)) = [0] \<and>
   spec_view '' ada '' dir2 = []"
  by code_simp

text \<open>
  C3, amended. After \<open>searchContacts\<close> the filtered view is the collection when the query
  is empty or white space only; otherwise it is the collection, in its order, restricted
  to the contacts whose first name, last name, email or full name contains the query
  without its leading and trailing white space as a case-insensitive substring. The
  call returns the filtered view and leaves the collection and the objects alone.
\<close>

theorem searchContacts_spec:
  "filteredContacts (snd (searchContacts q s)) =
     (if trim q = [] then contacts s else spec_view (trim q) s) \<and>
   fst (searchContacts q s) = filteredContacts (snd (searchContacts q s)) \<and>
   contacts (snd (searchContacts q s)) = contacts s \<and>
   heap (snd (searchContacts q s)) = heap s"
  by (simp add: searchContacts_def Let_def spec_view_def matches_spec_matches)


section \<open>The filtered view after a change\<close>

text \<open>
  The manager keeps no query. After a search for 'zzz', which leaves the filtered view
  empty, and with an empty search box on the page, adding Alan puts both contacts in
  the filtered view, and Alan does not match 'zzz'.
\<close>

theorem addContact_after_search_counterexample:
  "trim ''zzz'' \<noteq> [] \<and>
   filteredContacts dir1_zzz = [] \<and>
   fst (addContact countingStorage (Some []) env2 alan dir1_zzz) = Inr 1 \<and>
   \<not> matches (trim (toLowerCase ''zzz''))
       (obj (snd (addContact countingStorage (Some []) env2 alan dir1_zzz)) 1) \<and>
   filteredContacts (snd (addContact countingStorage (Some []) env2 alan dir1_zzz)) = [0, 1]"
  by code_simp

text \<open>
  C2, amended. The query lives in the search box of the page, not in the manager. After
  a successful \<open>addContact\<close>, \<open>updateContact\<close> or \<open>deleteContact\<close> the filtered view is the
  view that the value of the box asks for at that moment: the whole collection when the
  box is missing or blank, and otherwise the collection, in its order, restricted to
  the matches of that value. After \<open>addContact\<close> the new contact is the last of the
  collection, and it is in the filtered view exactly when the box is missing or blank
  or the contact matches the value of the box. \<open>searchContacts q\<close> leaves the view that
  a box holding \<open>q\<close> asks for, so the filtered view follows the last query as long as the
  box holds it.
\<close>

theorem filter_reapplied_from_searchInput:
  "(addContact port v env d s = (Inr r, s1) \<longrightarrow>
      contacts s1 = contacts s @ [r] \<and>
      filteredContacts s1 = currentView v s1 \<and>
      (r \<in> set (filteredContacts s1) \<longleftrightarrow>
         (case v of None \<Rightarrow> True
          | Some q \<Rightarrow> trim q = [] \<or> matches (trim (toLowerCase q)) (obj s1 r)))) \<and>
   (updateContact port v now i u s = (Inr r', s2) \<longrightarrow> filteredContacts s2 = currentView v s2) \<and>
   (deleteContact port v i s = (Inr True, s3) \<longrightarrow> filteredContacts s3 = currentView v s3) \<and>
   filteredContacts (snd (searchContacts q s)) = currentView (Some q) s"
proof (intro conjI impI)
  assume a: "addContact port v env d s = (Inr r, s1)"
  then obtain t where t: "s1 = applyCurrentFilter v t" "contacts t = contacts s @ [r]"
    using addContact_Inr by blast
  show c: "contacts s1 = contacts s @ [r]"
    by (simp add: t applyCurrentFilter_frame)
  show f: "filteredContacts s1 = currentView v s1"
    by (simp add: t(1) applyCurrentFilter_view')
  have "s1 = s1\<lparr> contacts := contacts s @ [r] \<rparr>"
    using c by simp
  then have "currentView v s1 = currentView v (s1\<lparr> contacts := contacts s @ [r] \<rparr>)"
    by simp
  then show "r \<in> set (filteredContacts s1) \<longleftrightarrow>
         (case v of None \<Rightarrow> True
          | Some q \<Rightarrow> trim q = [] \<or> matches (trim (toLowerCase q)) (obj s1 r))"
    by (simp only: f last_in_currentView)
next
  assume "updateContact port v now i u s = (Inr r', s2)"
  then obtain t where "s2 = applyCurrentFilter v t"
    using updateContact_Inr by blast
  then show "filteredContacts s2 = currentView v s2"
    by (simp add: applyCurrentFilter_view')
next
  assume "deleteContact port v i s = (Inr True, s3)"
  then obtain t where "s3 = applyCurrentFilter v t"
    using deleteContact_Inr_True by blast
  then show "filteredContacts s3 = currentView v s3"
    by (simp add: applyCurrentFilter_view')
next
  show "filteredContacts (snd (searchContacts q s)) = currentView (Some q) s"
    by (rule searchContacts_view)
qed

theorem filter_reapplied_from_searchInput_witness:
  "addContact countingStorage (Some ''tur'') env2 alan dir1 = (Inr 1, dir2_tur) \<and>
   contacts dir2_tur = contacts dir1 @ [1] \<and>
   filteredContacts dir2_tur = currentView (Some ''tur'') dir2_tur \<and>
   filteredContacts dir2_tur = [1] \<and>
   updateContact countingStorage (Some ''tur'') 1700000009000 id1 rename dir2 = (Inr 0, dir2_upd) \<and>
   filteredContacts dir2_upd = currentView (Some ''tur'') dir2_upd \<and>
   filteredContacts dir2_upd = [1] \<and>
   deleteContact countingStorage (Some ''tur'') id1 dir2 = (Inr True, dir2_del) \<and>
   filteredContacts dir2_del = currentView (Some ''tur'') dir2_del \<and>
   contacts dir2_del = [1]"
proof -
  have "fst (addContact countingStorage (Some ''tur'') env2 alan dir1) = Inr 1"
    by code_simp
  then have a: "addContact countingStorage (Some ''tur'') env2 alan dir1 = (Inr 1, dir2_tur)"
    by (simp add: dir2_tur_def prod_eq_iff)
  have "fst (updateContact countingStorage (Some ''tur'') 1700000009000 id1 rename dir2) = Inr 0"
    by code_simp
  then have u: "updateContact countingStorage (Some ''tur'') 1700000009000 id1 rename dir2
      = (Inr 0, dir2_upd)"
    by (simp add: dir2_upd_def prod_eq_iff)
  have "fst (deleteContact countingStorage (Some ''tur'') id1 dir2) = Inr True"
    by code_simp
  then have d: "deleteContact countingStorage (Some ''tur'') id1 dir2 = (Inr True, dir2_del)"
    by (simp add: dir2_del_def prod_eq_iff)
  have v: "filteredContacts dir2_tur = [1]" "filteredContacts dir2_upd = [1]"
    "contacts dir2_del = [1]"
    by code_simp+
  from filter_reapplied_from_searchInput [where port = countingStorage and v = "Some ''tur''"
      and env = env2 and d = alan and s = dir1 and r = 1 and ?s1.0 = dir2_tur] a
  have 1: "contacts dir2_tur = contacts dir1 @ [1]"
    "filteredContacts dir2_tur = currentView (Some ''tur'') dir2_tur"
    by simp_all
  from filter_reapplied_from_searchInput [where port = countingStorage and v = "Some ''tur''"
      and now = 1700000009000 and i = id1 and u = rename and s = dir2 and r' = 0
      and ?s2.0 = dir2_upd and ?s3.0 = dir2_del] u d
  have 2: "filteredContacts dir2_upd = currentView (Some ''tur'') dir2_upd"
    "filteredContacts dir2_del = currentView (Some ''tur'') dir2_del"
    by simp_all
  from a u d v 1 2 show ?thesis
    by simp
qed


section \<open>Uniqueness of emails\<close>

lemma distinct_map_splice1: "distinct (map f xs) \<Longrightarrow> distinct (map f (splice1 i xs))"
proof -
  assume d: "distinct (map f xs)"
  have "map f (splice1 i xs) = take i (map f xs) @ drop (Suc i) (map f xs)"
    by (simp add: splice1_def take_map drop_map)
  moreover have "set (take i (map f xs)) \<inter> set (drop (Suc i) (map f xs)) = {}"
    using d by (rule set_take_disj_set_drop_if_distinct) simp
  ultimately show ?thesis
    using d by (simp add: distinct_take distinct_drop del: map_append)
qed

lemma email_unique_cong:
  "heap s' = heap s \<Longrightarrow> contacts s' = contacts s \<Longrightarrow> email_unique s' = email_unique s"
  by (simp add: email_unique_def obj_def)

lemma ids_unique_cong:
  "heap s' = heap s \<Longrightarrow> contacts s' = contacts s \<Longrightarrow> ids_unique s' = ids_unique s"
  by (simp add: ids_unique_def obj_def)

lemma refs_allocated_cong:
  "nextRef s' = nextRef s \<Longrightarrow> contacts s' = contacts s \<Longrightarrow> refs_allocated s' = refs_allocated s"
  by (simp add: refs_allocated_def)

text \<open>The manager after \<open>addContact\<close>, whatever \<open>save\<close> did.\<close>

lemma addContact_state:
  "snd (addContact port v env d s) = s \<or>
   (findByEmail s (email d) = None \<and>
    heap (snd (addContact port v env d s)) = (heap s)(nextRef s \<mapsto>
      Contact_new env (firstName d) (lastName d) (email d) (phone d) (address d) None) \<and>
    nextRef (snd (addContact port v env d s)) = Suc (nextRef s) \<and>
    contacts (snd (addContact port v env d s)) = contacts s @ [nextRef s])"
proof (cases "findByEmail s (email d)")
  case (Some r')
  then show ?thesis
    by (simp add: addContact_def)
next
  case None
  define s1 where "s1 = s\<lparr> heap := (heap s)(nextRef s \<mapsto>
      Contact_new env (firstName d) (lastName d) (email d) (phone d) (address d) None),
      nextRef := Suc (nextRef s), contacts := contacts s @ [nextRef s] \<rparr>"
  have "snd (addContact port v env d s) = snd (saveContacts port s1) \<or>
        snd (addContact port v env d s) = applyCurrentFilter v (snd (saveContacts port s1))"
    using None
    by (cases "fst (saveContacts port s1)")
       (simp_all add: addContact_def Let_def s1_def [symmetric] case_prod_beta)
  then show ?thesis
    using None
    by (auto simp add: applyCurrentFilter_frame saveContacts_frame s1_def)
qed

lemma addContact_preserves_email_unique:
  assumes "email_unique s" and "refs_allocated s"
  shows "email_unique (snd (addContact port v env d s))"
proof -
  let ?s' = "snd (addContact port v env d s)"
  let ?c = "Contact_new env (firstName d) (lastName d) (email d) (phone d) (address d) None"
  from addContact_state [of port v env d s] show ?thesis
  proof
    assume "?s' = s"
    with assms show ?thesis by simp
  next
    assume a: "findByEmail s (email d) = None \<and> heap ?s' = (heap s)(nextRef s \<mapsto> ?c) \<and>
      nextRef ?s' = Suc (nextRef s) \<and> contacts ?s' = contacts s @ [nextRef s]"
    have fresh: "nextRef s \<notin> set (contacts s)"
      using assms(2) by (rule refs_allocated_fresh)
    have old: "map (obj ?s') (contacts s) = map (obj s) (contacts s)"
      using fresh by (rule map_obj_fresh) (simp add: a)
    have new: "obj ?s' (nextRef s) = ?c"
      by (simp add: obj_def a)
    have em: "email ?c = email d"
      by (simp add: Contact_new_def)
    have "map (\<lambda>r. toLowerCase (email (obj ?s' r))) (contacts s)
        = map (\<lambda>c. toLowerCase (email c)) (map (obj ?s') (contacts s))"
      by (simp add: comp_def)
    also have "\<dots> = map (\<lambda>r. toLowerCase (email (obj s r))) (contacts s)"
      by (simp add: old comp_def)
    finally have m: "map (\<lambda>r. toLowerCase (email (obj ?s' r))) (contacts s)
        = map (\<lambda>r. toLowerCase (email (obj s r))) (contacts s)" .
    from a have "toLowerCase (email d) \<notin> set (map (\<lambda>r. toLowerCase (email (obj s r))) (contacts s))"
      by (auto simp add: findByEmail_None_iff)
    with assms(1) show ?thesis
      by (simp add: email_unique_def a m new em)
  qed
qed


lemma ids_unique_same_ref:
  assumes "ids_unique s" "r \<in> set (contacts s)" "r' \<in> set (contacts s)"
    and "id' (obj s r') = id' (obj s r)"
  shows "r' = r"
proof -
  from assms(1) have "inj_on (\<lambda>r. id' (obj s r)) (set (contacts s))"
    by (simp add: ids_unique_def distinct_map)
  with assms(2-4) show ?thesis
    by (auto dest: inj_onD)
qed

lemma updateContact_state:
  "snd (updateContact port v now i u s) = s \<or>
   (\<exists>r. findById s i = Some r \<and> \<not> emailConflict s i r u \<and>
      heap (snd (updateContact port v now i u s)) = (heap s)(r \<mapsto> update now (obj s r) u) \<and>
      contacts (snd (updateContact port v now i u s)) = contacts s \<and>
      nextRef (snd (updateContact port v now i u s)) = nextRef s)"
proof (cases "findById s i")
  case None
  then show ?thesis
    by (simp add: updateContact_def)
next
  case (Some r)
  show ?thesis
  proof (cases "emailConflict s i r u")
    case True
    with Some show ?thesis
      by (simp add: updateContact_def)
  next
    case False
    with Some updateContact_applied_heap [OF Some False] show ?thesis
      by simp
  qed
qed

lemma deleteContact_state:
  "snd (deleteContact port v i s) = s \<or>
   (\<exists>index. heap (snd (deleteContact port v i s)) = heap s \<and>
      nextRef (snd (deleteContact port v i s)) = nextRef s \<and>
      contacts (snd (deleteContact port v i s)) = splice1 index (contacts s))"
proof (cases "findIndex (\<lambda>r. id' (obj s r) = i) (contacts s)")
  case None
  then show ?thesis
    by (simp add: deleteContact_def)
next
  case (Some index)
  let ?s1 = "s\<lparr> contacts := splice1 index (contacts s) \<rparr>"
  have "snd (deleteContact port v i s) = snd (saveContacts port ?s1) \<or>
        snd (deleteContact port v i s) = applyCurrentFilter v (snd (saveContacts port ?s1))"
    using Some
    by (cases "fst (saveContacts port ?s1)")
       (simp_all add: deleteContact_def Let_def case_prod_beta)
  then show ?thesis
    by (auto simp add: applyCurrentFilter_frame saveContacts_frame)
qed

text \<open>An update whose email is absent, or present and not empty, keeps the emails unique.\<close>

lemma updateContact_preserves_email_unique:
  assumes eu: "email_unique s" and iu: "ids_unique s" and ne: "upd_email u \<noteq> Some []"
  shows "email_unique (snd (updateContact port v now i u s))"
proof -
  let ?s' = "snd (updateContact port v now i u s)"
  let ?f = "\<lambda>r. toLowerCase (email (obj s r))"
  let ?f' = "\<lambda>r. toLowerCase (email (obj ?s' r))"
  from updateContact_state [of port v now i u s] show ?thesis
  proof
    assume "?s' = s"
    with eu show ?thesis by simp
  next
    assume "\<exists>r. findById s i = Some r \<and> \<not> emailConflict s i r u \<and>
      heap ?s' = (heap s)(r \<mapsto> update now (obj s r) u) \<and>
      contacts ?s' = contacts s \<and> nextRef ?s' = nextRef s"
    then obtain r where found: "findById s i = Some r" and nc: "\<not> emailConflict s i r u"
      and h: "heap ?s' = (heap s)(r \<mapsto> update now (obj s r) u)"
      and c: "contacts ?s' = contacts s"
      by blast
    from found have r: "r \<in> set (contacts s)" "id' (obj s r) = i"
      by (simp_all add: findById_SomeD)
    have others: "?f' x = ?f x" if "x \<noteq> r" for x
      using that by (simp add: obj_def h)
    have "obj ?s' r = update now (obj s r) u"
      by (simp add: obj_def h)
    then have new: "email (obj ?s' r) = (case upd_email u of None \<Rightarrow> email (obj s r) | Some e \<Rightarrow> e)"
      by (simp add: update_def assign_def)
    from eu have dx: "distinct (contacts s)" and inj: "inj_on ?f (set (contacts s))"
      by (simp_all add: email_unique_def distinct_map)
    have alt: "?f' r = ?f r \<or> ?f' r \<notin> ?f ` set (contacts s)"
    proof (cases "upd_email u")
      case None
      then show ?thesis by (simp add: new)
    next
      case (Some e)
      with ne have e: "e \<noteq> []" by simp
      show ?thesis
      proof (cases "e = email (obj s r)")
        case True
        with Some show ?thesis by (simp add: new)
      next
        case False
        show ?thesis
        proof (cases "findByEmail s e")
          case None
          then have "toLowerCase e \<notin> ?f ` set (contacts s)"
            by (auto simp add: findByEmail_None_iff)
          with Some show ?thesis by (simp add: new)
        next
          case (Some r')
          with nc \<open>upd_email u = Some e\<close> e False have "id' (obj s r') = i"
            by (simp add: emailConflict_def)
          moreover from Some have r': "r' \<in> set (contacts s)" "?f r' = toLowerCase e"
            by (simp_all add: findByEmail_SomeD)
          ultimately have "r' = r"
            using ids_unique_same_ref [OF iu r(1)] r(2) by simp
          with r' \<open>upd_email u = Some e\<close> show ?thesis by (simp add: new)
        qed
      qed
    qed
    have "inj_on ?f' (set (contacts s))"
    proof (rule inj_onI)
      fix x y
      assume x: "x \<in> set (contacts s)" and y: "y \<in> set (contacts s)" and eq: "?f' x = ?f' y"
      from alt show "x = y"
      proof
        assume "?f' r = ?f r"
        with others have "?f' z = ?f z" for z
          by (cases "z = r") simp_all
        with eq have "?f x = ?f y" by simp
        with inj x y show ?thesis by (auto dest: inj_onD)
      next
        assume out: "?f' r \<notin> ?f ` set (contacts s)"
        show ?thesis
        proof (cases "x = r"; cases "y = r")
          assume "x = r" "y = r"
          then show ?thesis by simp
        next
          assume "x = r" "y \<noteq> r"
          with eq others [of y] have "?f' r = ?f y" by simp
          with out y show ?thesis by blast
        next
          assume "x \<noteq> r" "y = r"
          with eq others [of x] have "?f' r = ?f x" by simp
          with out x show ?thesis by blast
        next
          assume "x \<noteq> r" "y \<noteq> r"
          with eq others [of x] others [of y] have "?f x = ?f y" by simp
          with inj x y show ?thesis by (auto dest: inj_onD)
        qed
      qed
    qed
    with dx show ?thesis
      by (simp add: email_unique_def c distinct_map)
  qed
qed

lemma deleteContact_preserves_email_unique:
  assumes "email_unique s"
  shows "email_unique (snd (deleteContact port v i s))"
proof -
  let ?s' = "snd (deleteContact port v i s)"
  from deleteContact_state [of port v i s] show ?thesis
  proof
    assume "?s' = s"
    with assms show ?thesis by simp
  next
    assume "\<exists>index. heap ?s' = heap s \<and> nextRef ?s' = nextRef s \<and>
      contacts ?s' = splice1 index (contacts s)"
    then obtain index where h: "heap ?s' = heap s" "contacts ?s' = splice1 index (contacts s)"
      by blast
    from assms have "distinct (map (\<lambda>r. toLowerCase (email (obj s r))) (splice1 index (contacts s)))"
      unfolding email_unique_def by (rule distinct_map_splice1)
    then show ?thesis
      by (simp add: email_unique_def h obj_def)
  qed
qed

lemma searchContacts_preserves_email_unique:
  "email_unique (snd (searchContacts q s)) = email_unique s"
  by (rule email_unique_cong) (simp_all add: searchContacts_frame)

lemma clearAllContacts_email_unique: "email_unique (clearAllContacts port s)"
  by (simp add: clearAllContacts_def email_unique_def)


lemma set_splice1: "set (splice1 i xs) \<subseteq> set xs"
  by (auto simp add: splice1_def dest: in_set_takeD in_set_dropD)

lemma addContact_preserves_refs_allocated:
  assumes "refs_allocated s"
  shows "refs_allocated (snd (addContact port v env d s))"
  using addContact_state [of port v env d s] assms
  by (auto simp add: refs_allocated_def list_all_iff less_Suc_eq)

lemma updateContact_preserves_refs_allocated:
  assumes "refs_allocated s"
  shows "refs_allocated (snd (updateContact port v now i u s))"
  using updateContact_state [of port v now i u s] assms
  by (auto simp add: refs_allocated_def)

lemma deleteContact_preserves_refs_allocated:
  assumes "refs_allocated s"
  shows "refs_allocated (snd (deleteContact port v i s))"
  using deleteContact_state [of port v i s] assms set_splice1 [of _ "contacts s"]
  by (auto simp add: refs_allocated_def list_all_iff subset_iff)

text \<open>A new contact whose generated id is not in use keeps the ids unique.\<close>

lemma addContact_preserves_ids_unique:
  assumes "ids_unique s" and "refs_allocated s"
    and "generateId env \<notin> set (map (\<lambda>r. id' (obj s r)) (contacts s))"
  shows "ids_unique (snd (addContact port v env d s))"
proof -
  let ?s' = "snd (addContact port v env d s)"
  let ?c = "Contact_new env (firstName d) (lastName d) (email d) (phone d) (address d) None"
  from addContact_state [of port v env d s] show ?thesis
  proof
    assume "?s' = s"
    with assms show ?thesis by simp
  next
    assume a: "findByEmail s (email d) = None \<and> heap ?s' = (heap s)(nextRef s \<mapsto> ?c) \<and>
      nextRef ?s' = Suc (nextRef s) \<and> contacts ?s' = contacts s @ [nextRef s]"
    have fresh: "nextRef s \<notin> set (contacts s)"
      using assms(2) by (rule refs_allocated_fresh)
    have old: "map (obj ?s') (contacts s) = map (obj s) (contacts s)"
      using fresh by (rule map_obj_fresh) (simp add: a)
    have new: "id' (obj ?s' (nextRef s)) = generateId env"
      by (simp add: obj_def a Contact_new_def)
    have "map (\<lambda>r. id' (obj ?s' r)) (contacts s) = map id' (map (obj ?s') (contacts s))"
      by (simp add: comp_def)
    also have "\<dots> = map (\<lambda>r. id' (obj s r)) (contacts s)"
      by (simp add: old comp_def)
    finally have m: "map (\<lambda>r. id' (obj ?s' r)) (contacts s) = map (\<lambda>r. id' (obj s r)) (contacts s)" .
    from assms(1,3) show ?thesis
      by (simp add: ids_unique_def a m new)
  qed
qed

lemma updateContact_preserves_ids_unique:
  assumes "ids_unique s"
  shows "ids_unique (snd (updateContact port v now i u s))"
proof -
  let ?s' = "snd (updateContact port v now i u s)"
  from updateContact_state [of port v now i u s] show ?thesis
  proof
    assume "?s' = s"
    with assms show ?thesis by simp
  next
    assume "\<exists>r. findById s i = Some r \<and> \<not> emailConflict s i r u \<and>
      heap ?s' = (heap s)(r \<mapsto> update now (obj s r) u) \<and>
      contacts ?s' = contacts s \<and> nextRef ?s' = nextRef s"
    then obtain r where h: "heap ?s' = (heap s)(r \<mapsto> update now (obj s r) u)"
      and c: "contacts ?s' = contacts s"
      by blast
    have "id' (obj ?s' x) = id' (obj s x)" for x
      by (cases "x = r") (simp_all add: obj_def h update_keeps_id)
    with assms show ?thesis
      by (simp add: ids_unique_def c)
  qed
qed

lemma deleteContact_preserves_ids_unique:
  assumes "ids_unique s"
  shows "ids_unique (snd (deleteContact port v i s))"
proof -
  let ?s' = "snd (deleteContact port v i s)"
  from deleteContact_state [of port v i s] show ?thesis
  proof
    assume "?s' = s"
    with assms show ?thesis by simp
  next
    assume "\<exists>index. heap ?s' = heap s \<and> nextRef ?s' = nextRef s \<and>
      contacts ?s' = splice1 index (contacts s)"
    then obtain index where h: "heap ?s' = heap s" "contacts ?s' = splice1 index (contacts s)"
      by blast
    from assms have "distinct (map (\<lambda>r. id' (obj s r)) (splice1 index (contacts s)))"
      unfolding ids_unique_def by (rule distinct_map_splice1)
    then show ?thesis
      by (simp add: ids_unique_def h obj_def)
  qed
qed

lemma directory_ok_new: "directory_ok (ContactManager_new [] st)"
  by (simp add: directory_ok_def email_unique_def ids_unique_def refs_allocated_def
      ContactManager_new_def)

text \<open>
  Away from the empty email, and with generated ids that are not in use, every
  operation keeps the emails of the directory unique up to case.
\<close>

lemma directory_ok_preserved:
  assumes "directory_ok s"
  shows "generateId env \<notin> set (map (\<lambda>r. id' (obj s r)) (contacts s)) \<Longrightarrow>
           directory_ok (snd (addContact port v env d s))"
    and "upd_email u \<noteq> Some [] \<Longrightarrow> directory_ok (snd (updateContact port v now i u s))"
    and "directory_ok (snd (deleteContact port v i s))"
    and "directory_ok (snd (searchContacts q s))"
    and "directory_ok (clearAllContacts port s)"
proof -
  from assms have eu: "email_unique s" and iu: "ids_unique s" and ra: "refs_allocated s"
    by (simp_all add: directory_ok_def)
  show "generateId env \<notin> set (map (\<lambda>r. id' (obj s r)) (contacts s)) \<Longrightarrow>
           directory_ok (snd (addContact port v env d s))"
    using eu iu ra
    by (simp add: directory_ok_def addContact_preserves_email_unique
        addContact_preserves_ids_unique addContact_preserves_refs_allocated)
  show "upd_email u \<noteq> Some [] \<Longrightarrow> directory_ok (snd (updateContact port v now i u s))"
    using eu iu ra
    by (simp add: directory_ok_def updateContact_preserves_email_unique
        updateContact_preserves_ids_unique updateContact_preserves_refs_allocated)
  show "directory_ok (snd (deleteContact port v i s))"
    using eu iu ra
    by (simp add: directory_ok_def deleteContact_preserves_email_unique
        deleteContact_preserves_ids_unique deleteContact_preserves_refs_allocated)
  have "email_unique (snd (searchContacts q s)) = email_unique s"
    "ids_unique (snd (searchContacts q s)) = ids_unique s"
    "refs_allocated (snd (searchContacts q s)) = refs_allocated s"
    by (rule email_unique_cong ids_unique_cong refs_allocated_cong;
        simp add: searchContacts_frame)+
  with eu iu ra show "directory_ok (snd (searchContacts q s))"
    by (simp add: directory_ok_def)
  show "directory_ok (clearAllContacts port s)"
    by (simp add: directory_ok_def clearAllContacts_def email_unique_def ids_unique_def
        refs_allocated_def)
qed

text \<open>
  C1. After every operation no two contacts of the collection should have emails that
  are equal up to case. \<open>updateContact\<close> breaks this: its check is skipped for an empty
  email, which is falsy, while \<open>Object.assign\<close> still writes it. In the directory of Ada
  and Alan, whose emails are unique, updating the email of Ada to the empty string and
  then that of Alan to the empty string both succeed, and the two contacts end with the
  same email. \<open>addContact\<close> does reject a second empty email.
\<close>

theorem updateContact_blank_email_breaks_uniqueness:
  "email_unique dir2 \<and>
   fst (updateContact countingStorage None 1700000009000 id1 blankEmail dir2) = Inr 0 \<and>
   fst (updateContact countingStorage None 1700000009500 id2 blankEmail dir3) = Inr 1 \<and>
   map (\<lambda>c. email c) (getAllContacts dir4) = [[], []] \<and>
   \<not> email_unique dir4 \<and>
   fst (addContact countingStorage None env2 nobody dir3) = Inl DuplicateEmail"
  by code_simp

end
